theory Spec2Isabelle
  imports Main
begin

section \<open>Data model of \<open>lib/vt.py\<close> (class \<open>VirusTotal_Search\<close>)\<close>

text \<open>
  The class keeps three \<open>asyncio.Queue\<close> objects and works on the file system and on the
  VirusTotal client. The embedding passes an explicit \<open>state\<close> (file system, the three
  queues, the tasks created so far and a chronological trace of the calls the code makes)
  and takes the answers of the outside world (remote API, I/O failures) from an \<open>env\<close>.
  Worker coroutines are run one after the other; interleavings of several workers are not
  part of this model.
\<close>

text \<open>A character of a Python \<open>str\<close> is a Unicode code point: \<open>Chr c\<close> is the code
  point of the 8-bit character \<open>c\<close> (U+0000 to U+00FF), \<open>Uni n\<close> is the code point
  \<open>256 + n\<close>. Every \<open>str\<close> of the program (identifiers, paths, URLs, error codes, the
  text of files) is a list of such characters; \<open>lit\<close> writes one out of 8-bit
  characters.\<close>

datatype pychar = Chr char | Uni nat

type_synonym pstr = "pychar list"

definition lit :: "char list \<Rightarrow> pstr" where
  "lit s = map Chr s"

type_synonym path = pstr

text \<open>An object returned by the API: only \<open>obj.type\<close>, \<open>obj.id\<close> and \<open>obj.url\<close> are read
  by the pipeline.\<close>

record artifact =
  otype :: pstr
  oid :: pstr
  ourl :: pstr

text \<open>A queue item is either a hash string or an API object (\<open>isinstance(sample, str)\<close>).\<close>

datatype item = Hash pstr | Obj artifact

fun item_id :: "item \<Rightarrow> pstr" where
  "item_id (Hash h) = h"
| "item_id (Obj a) = oid a"

datatype exn = APIError pstr | IOError | ValueError | TypeError | UnicodeDecodeError

datatype qname = InfoQ | SampleQ | BehaviorQ

text \<open>How a driver coroutine ends: it returns, it raises, or it waits for ever in the
  \<open>join\<close> of a queue whose counter can no longer reach zero.\<close>

datatype outcome = Returned | Raised exn | Blocked qname

datatype task_kind = Heartbeat | InfoWorker | BehaviorWorker | SampleWorker

datatype level = DEFAULT | DEBUG | WARNING | ERROR

text \<open>One constructor per message text that the code hands to \<open>auxiliary.log\<close>.\<close>

datatype message =
    Running_query pstr
  | Unknown_artifact_type pstr pstr
  | Unknown_sample_type pstr pstr
  | Summary_exists pstr
  | Saved_summary path
  | Api_key_invalid
  | Quota_exceeded
  | Request_error pstr
  | No_valid_data pstr
  | No_behavior_report pstr
  | Saved_report path
  | Error_saving_report path
  | Report_exists pstr
  | Error_reading_report path
  | Sample_not_found pstr
  | Sample_exists pstr
  | Sample_downloaded pstr
  | Error_downloading

datatype event =
    CreateTask task_kind
  | Cancel nat
  | Put qname item
  | Get qname item
  | TaskDone qname
  | Join qname
  | IsFile path
  | Exists path
  | NetGetObject pstr
  | NetGetJson pstr
  | NetDownload pstr
  | Parse pstr item
  | Log level message

text \<open>A directory entry: a regular file with its content, or a directory.\<close>

datatype node = RegFile pstr | Dir

text \<open>\<open>asyncio.Queue\<close>: the items waiting, and the counter of unfinished tasks that
  \<open>put\<close> increments, \<open>task_done\<close> decrements and \<open>join\<close> waits on.\<close>

record queue =
  pending :: "item list"
  unfinished :: nat

record state =
  fs :: "path \<Rightarrow> node option"
  info_queue :: queue
  sample_queue :: queue
  behavior_queue :: queue
  created :: "task_kind list"
  trace :: "event list"

record options =
  query :: pstr
  limit :: nat
  workers :: nat
  dl_samples :: bool
  dl_behavior :: bool
  download_dir :: path
  samples_dir :: path
  reports_dir :: path
  info_dir :: path
  artifacts :: path

text \<open>The result of \<open>client.download_file_async(id, f)\<close>: the bytes written to \<open>f\<close>, and
  whether the call returned or raised after writing them.\<close>

datatype dl = DlOk pstr | DlApiError pstr pstr | DlIOError pstr

text \<open>The result of \<open>client.get_json_async(url)\<close>: an API error, a body without the key
  \<open>data\<close>, a body whose \<open>data\<close> is null, or the data.\<close>

datatype json_result = JApiError pstr | JNoData | JNull | JData pstr

text \<open>The outside world. \<open>iterator q n\<close> lists what the search iterator does step by
  step (\<open>Inr obj\<close>: yields \<open>obj\<close>; \<open>Inl code\<close>: raises \<open>APIError\<close>); \<open>render\<close> is the text
  that \<open>display_information\<close> writes for an object; \<open>undecodable\<close> says whether reading
  a file content as text raises \<open>UnicodeDecodeError\<close>, and \<open>valid_json\<close> whether
  \<open>json.load\<close> accepts it. \<open>unicode_digit\<close> is the table of the Unicode decimal digits
  from U+0100 on, which the regular expression engine consults for \<open>\d\<close>.\<close>

record env =
  iterator :: "pstr \<Rightarrow> nat \<Rightarrow> (pstr + artifact) list"
  get_object :: "pstr \<Rightarrow> pstr + artifact"
  get_json :: "pstr \<Rightarrow> json_result"
  download_file :: "pstr \<Rightarrow> dl"
  open_fails :: "path \<Rightarrow> bool"
  undecodable :: "pstr \<Rightarrow> bool"
  valid_json :: "pstr \<Rightarrow> bool"
  render :: "artifact \<Rightarrow> pstr"
  unicode_digit :: "nat \<Rightarrow> bool"

subsection \<open>Paths and the file system\<close>

text \<open>\<open>os.path.join(a, b)\<close> of \<open>posixpath\<close>, for two components.\<close>

definition path_join :: "path \<Rightarrow> path \<Rightarrow> path" where
  "path_join a b =
     (if b \<noteq> [] \<and> hd b = Chr (CHR ''/'') then b
      else if a = [] \<or> last a = Chr (CHR ''/'') then a @ b
      else a @ (lit ''/'') @ b)"

definition isfile :: "state \<Rightarrow> path \<Rightarrow> bool" where
  "isfile s p = (case fs s p of Some (RegFile c) \<Rightarrow> True | _ \<Rightarrow> False)"

definition exists_path :: "state \<Rightarrow> path \<Rightarrow> bool" where
  "exists_path s p = (fs s p \<noteq> None)"

text \<open>\<open>open(p, "w")\<close> fails on a directory and wherever the environment says so.\<close>

definition cannot_open :: "env \<Rightarrow> state \<Rightarrow> path \<Rightarrow> bool" where
  "cannot_open e s p = (fs s p = Some Dir \<or> open_fails e p)"

definition write_file :: "path \<Rightarrow> pstr \<Rightarrow> state \<Rightarrow> state" where
  "write_file p c s = s\<lparr>fs := (fs s)(p \<mapsto> RegFile c)\<rparr>"

definition emit :: "event list \<Rightarrow> state \<Rightarrow> state" where
  "emit evs s = s\<lparr>trace := trace s @ evs\<rparr>"

definition log :: "level \<Rightarrow> message \<Rightarrow> state \<Rightarrow> state" where
  "log l m s = emit [Log l m] s"

subsection \<open>Queues\<close>

fun get_queue :: "qname \<Rightarrow> state \<Rightarrow> queue" where
  "get_queue InfoQ s = info_queue s"
| "get_queue SampleQ s = sample_queue s"
| "get_queue BehaviorQ s = behavior_queue s"

fun set_queue :: "qname \<Rightarrow> queue \<Rightarrow> state \<Rightarrow> state" where
  "set_queue InfoQ q s = s\<lparr>info_queue := q\<rparr>"
| "set_queue SampleQ q s = s\<lparr>sample_queue := q\<rparr>"
| "set_queue BehaviorQ q s = s\<lparr>behavior_queue := q\<rparr>"

definition empty_queue :: queue where
  "empty_queue = \<lparr>pending = [], unfinished = 0\<rparr>"

definition put :: "qname \<Rightarrow> item \<Rightarrow> state \<Rightarrow> state" where
  "put n x s =
     (let q = get_queue n s
      in emit [Put n x]
           (set_queue n (q\<lparr>pending := pending q @ [x], unfinished := Suc (unfinished q)\<rparr>) s))"

text \<open>\<open>get\<close> is only called on a queue that was just tested non-empty, where it returns
  the head at once.\<close>

definition get :: "qname \<Rightarrow> item \<Rightarrow> state \<Rightarrow> state" where
  "get n x s =
     (let q = get_queue n s
      in emit [Get n x] (set_queue n (q\<lparr>pending := tl (pending q)\<rparr>) s))"

text \<open>\<open>task_done\<close> raises \<open>ValueError\<close> when called more often than items were put.\<close>

definition task_done :: "qname \<Rightarrow> state \<Rightarrow> exn option \<times> state" where
  "task_done n s =
     (let q = get_queue n s
      in if unfinished q = 0 then (Some ValueError, s)
         else (None, emit [TaskDone n] (set_queue n (q\<lparr>unfinished := unfinished q - 1\<rparr>) s)))"

text \<open>\<open>join\<close> returns exactly when the counter of unfinished tasks is zero; with all
  workers finished nothing can lower it any more.\<close>

definition join_returns :: "qname \<Rightarrow> state \<Rightarrow> bool" where
  "join_returns n s = (unfinished (get_queue n s) = 0)"

definition init_state :: "(path \<Rightarrow> node option) \<Rightarrow> state" where
  "init_state disk =
     \<lparr>fs = disk, info_queue = empty_queue, sample_queue = empty_queue,
      behavior_queue = empty_queue, created = [], trace = []\<rparr>"

section \<open>The batch loader: reading the hash list (\<open>download_samples\<close>, first loop)\<close>

definition strip_char :: "pychar \<Rightarrow> bool" where
  "strip_char c = (c = Chr (CHR 0x0A) \<or> c = Chr (CHR '' ''))"

text \<open>\<open>data.strip("\n ")\<close>: newlines and spaces are removed at both ends.\<close>

definition strip :: "pstr \<Rightarrow> pstr" where
  "strip data = rev (dropWhile strip_char (rev (dropWhile strip_char data)))"

text \<open>The character class \<open>[a-fA-F\d]\<close> of a \<open>str\<close> pattern compiled without
  \<open>re.ASCII\<close>: the letters a to f and A to F, and with \<open>\d\<close> every Unicode decimal
  digit. Below U+0100 the decimal digits are the ten ASCII digits; from U+0100 on they are
  what the table \<open>unicode_digit\<close> says.\<close>

definition hexchar :: "env \<Rightarrow> pychar \<Rightarrow> bool" where
  "hexchar e c =
     (case c of
        Chr a \<Rightarrow> a \<in> set ''abcdefABCDEF0123456789''
      | Uni n \<Rightarrow> unicode_digit e (256 + n))"

text \<open>\<open>re.compile(r"([a-fA-F\d]{n})").match(data)\<close>: the pattern is anchored at the start
  of \<open>data\<close> only.\<close>

definition re_match :: "env \<Rightarrow> nat \<Rightarrow> pstr \<Rightarrow> bool" where
  "re_match e n data = (n \<le> length data \<and> list_all (hexchar e) (take n data))"

definition md5 :: "env \<Rightarrow> pstr \<Rightarrow> bool" where
  "md5 e data = re_match e 32 data"

definition sha1 :: "env \<Rightarrow> pstr \<Rightarrow> bool" where
  "sha1 e data = re_match e 40 data"

definition sha256 :: "env \<Rightarrow> pstr \<Rightarrow> bool" where
  "sha256 e data = re_match e 64 data"

definition accepted :: "env \<Rightarrow> pstr \<Rightarrow> bool" where
  "accepted e line = (let data = strip line in md5 e data \<or> sha1 e data \<or> sha256 e data)"

text \<open>The loop \<open>for data in f\<close> over the lines of the file, with the list \<open>samples\<close> of the
  hashes seen so far.\<close>

fun read_hashes :: "env \<Rightarrow> pstr list \<Rightarrow> pstr list \<Rightarrow> state \<Rightarrow> pstr list \<times> state" where
  "read_hashes e [] samples s = (samples, s)"
| "read_hashes e (line # f) samples s =
     (let data = strip line
      in if md5 e data \<or> sha1 e data \<or> sha256 e data then
           if data \<notin> set samples then
             read_hashes e f (samples @ [data]) (put InfoQ (Hash data) s)
           else read_hashes e f samples s
         else read_hashes e f samples s)"

text \<open>What the specification says about a line: after removing the trailing newline and
  spaces it consists of exactly 32, 40 or 64 hexadecimal characters (the digits 0 to 9 and
  the letters a to f in either case).\<close>

definition spec_hexadecimal :: "pychar \<Rightarrow> bool" where
  "spec_hexadecimal c = (case c of Chr a \<Rightarrow> a \<in> set ''0123456789abcdefABCDEF'' | Uni n \<Rightarrow> False)"

definition spec_strip_trailing :: "pstr \<Rightarrow> pstr" where
  "spec_strip_trailing line = rev (dropWhile strip_char (rev line))"

definition spec_accepted :: "pstr \<Rightarrow> bool" where
  "spec_accepted line =
     (let data = spec_strip_trailing line
      in length data \<in> {32, 40, 64} \<and> list_all spec_hexadecimal data)"

section \<open>Rendering a summary: \<open>display_information\<close>\<close>

text \<open>Of \<open>display_information(sample, filename)\<close> the model keeps what touches the file
  system and the log: the summary file is written only if \<open>filename\<close> does not exist
  (\<open>open\<close> may raise), otherwise the existence is tested a second time and logged. The
  text itself is \<open>render\<close>; printing and the CSV output are left out.\<close>

definition display_information ::
  "env \<Rightarrow> artifact \<Rightarrow> path \<Rightarrow> state \<Rightarrow> exn option \<times> state" where
  "display_information e sample filename s =
     (let s1 = (if otype sample \<in> {(lit ''file''), (lit ''domain''), (lit ''url'')} then s
                else log WARNING (Unknown_sample_type (otype sample) (oid sample)) s);
          s2 = emit [Exists filename] s1
      in if \<not> exists_path s2 filename then
           (if cannot_open e s2 filename then (Some IOError, s2)
            else (None, log DEBUG (Saved_summary filename)
                          (write_file filename (render e sample) s2)))
         else (None, log DEBUG (Summary_exists (oid sample)) (emit [Exists filename] s2)))"

section \<open>Error classification\<close>

definition auth_codes :: "pstr list" where
  "auth_codes = [(lit ''AuthenticationRequiredError''), (lit ''ForbiddenError''), (lit ''UserNotActiveError''),
                 (lit ''WrongCredentialsError'')]"

definition quota_codes :: "pstr list" where
  "quota_codes = [(lit ''QuotaExceededError''), (lit ''TooManyRequestsError'')]"

text \<open>The Fatal class of the specification: authentication, authorization, account
  state and quota failures.\<close>

definition fatal :: "pstr \<Rightarrow> bool" where
  "fatal code = (code \<in> set auth_codes \<or> code \<in> set quota_codes)"

text \<open>The \<open>if/elif/else\<close> chain that logs an API error, as written in \<open>search\<close> and
  again in \<open>get_sample_info\<close>.\<close>

definition log_api_error :: "pstr \<Rightarrow> state \<Rightarrow> state" where
  "log_api_error code s =
     (if code \<in> set auth_codes then log ERROR Api_key_invalid s
      else if code \<in> set quota_codes then log ERROR Quota_exceeded s
      else log ERROR (Request_error code) s)"

section \<open>The sample worker: \<open>get_sample\<close>\<close>

text \<open>The body of the \<open>while\<close> loop for the item \<open>x\<close> just taken off the queue. An
  \<open>IOError\<close> of \<open>open\<close> or of the download is caught and logged; an \<open>APIError\<close> of the
  download is not caught and leaves the coroutine, after the file was opened for writing
  and has received what the download wrote.\<close>

definition get_sample_item ::
  "env \<Rightarrow> options \<Rightarrow> item \<Rightarrow> state \<Rightarrow> exn option \<times> state" where
  "get_sample_item e opts x s =
     (let sample_id = item_id x;
          sample_path = path_join (samples_dir opts) sample_id;
          s1 = emit [IsFile sample_path] s
      in if isfile s1 sample_path then
           task_done SampleQ (log DEBUG (Sample_exists sample_id) s1)
         else if cannot_open e s1 sample_path then
           task_done SampleQ (log ERROR Error_downloading s1)
         else
           (case download_file e sample_id of
              DlOk bytes \<Rightarrow>
                task_done SampleQ
                  (log DEBUG (Sample_downloaded sample_id)
                     (write_file sample_path bytes (emit [NetDownload sample_id] s1)))
            | DlApiError code bytes \<Rightarrow>
                (Some (APIError code),
                 write_file sample_path bytes (emit [NetDownload sample_id] s1))
            | DlIOError bytes \<Rightarrow>
                task_done SampleQ
                  (log ERROR Error_downloading
                     (write_file sample_path bytes (emit [NetDownload sample_id] s1)))))"

function get_sample :: "env \<Rightarrow> options \<Rightarrow> state \<Rightarrow> exn option \<times> state" where
  "get_sample e opts s =
     (case pending (sample_queue s) of
        [] \<Rightarrow> (None, s)
      | x # rest \<Rightarrow>
          (case get_sample_item e opts x (get SampleQ x s) of
             (None, s') \<Rightarrow> get_sample e opts s'
           | (Some err, s') \<Rightarrow> (Some err, s')))"
  by pat_completeness auto
termination
  by (relation "measure (\<lambda>(e, opts, s). length (pending (sample_queue s)))")
    (auto simp: get_sample_item_def task_done_def get_def emit_def log_def write_file_def
      Let_def split: if_splits dl.splits)

section \<open>The behavior worker: \<open>execute_request\<close> and \<open>get_behavior_report\<close>\<close>

definition site_url :: pstr where
  "site_url = (lit ''https://virustotal.com/api/v3/'')"

text \<open>\<open>urljoin\<close> of the site URL, which ends in a slash, and a relative request.\<close>

definition urljoin :: "pstr \<Rightarrow> pstr \<Rightarrow> pstr" where
  "urljoin base request = base @ request"

text \<open>Every \<open>APIError\<close>, whatever its code, is caught here and turned into \<open>None\<close>.\<close>

definition execute_request :: "env \<Rightarrow> pstr \<Rightarrow> state \<Rightarrow> pstr option \<times> state" where
  "execute_request e request s =
     (let url = urljoin site_url request;
          s1 = emit [NetGetJson url] s
      in case get_json e url of
           JApiError code \<Rightarrow> (None, s1)
         | JNoData \<Rightarrow> (None, log DEFAULT (No_valid_data url) s1)
         | JNull \<Rightarrow> (None, s1)
         | JData d \<Rightarrow> (Some d, s1))"

text \<open>The last two statements of the loop body: hand a retrieved report to the sandbox
  parser, then mark the item done.\<close>

definition finish_report :: "pstr option \<Rightarrow> item \<Rightarrow> state \<Rightarrow> exn option \<times> state" where
  "finish_report retrieved x s =
     (case retrieved of
        Some result \<Rightarrow> task_done BehaviorQ (emit [Parse result x] s)
      | None \<Rightarrow> task_done BehaviorQ s)"

text \<open>The body of the \<open>while\<close> loop for the item \<open>x\<close> just taken off the queue. On a
  cache hit the handler around \<open>json.load\<close> catches \<open>IOError\<close> and
  \<open>json.JSONDecodeError\<close>; a \<open>UnicodeDecodeError\<close> raised while the file is read as
  text is neither, and leaves the coroutine.\<close>

definition get_behavior_report_item ::
  "env \<Rightarrow> options \<Rightarrow> item \<Rightarrow> state \<Rightarrow> exn option \<times> state" where
  "get_behavior_report_item e opts x s =
     (let sample_id = item_id x;
          report_file = path_join (reports_dir opts) sample_id;
          s1 = emit [IsFile report_file] s
      in if \<not> isfile s1 report_file then
           (case execute_request e ((lit ''files/'') @ sample_id @ (lit ''/behaviours'')) s1 of
              (None, s2) \<Rightarrow> task_done BehaviorQ (log ERROR (No_behavior_report sample_id) s2)
            | (Some result, s2) \<Rightarrow>
                if cannot_open e s2 report_file then
                  finish_report None x (log ERROR (Error_saving_report report_file) s2)
                else
                  finish_report (Some result) x
                    (log DEBUG (Saved_report report_file) (write_file report_file result s2)))
         else
           (let s2 = log DEBUG (Report_exists sample_id) s1
            in case fs s2 report_file of
                 Some (RegFile content) \<Rightarrow>
                   if open_fails e report_file then
                     finish_report None x (log ERROR (Error_reading_report report_file) s2)
                   else if undecodable e content then (Some UnicodeDecodeError, s2)
                   else if \<not> valid_json e content then
                     finish_report None x (log ERROR (Error_reading_report report_file) s2)
                   else finish_report (Some content) x s2
               | _ \<Rightarrow> finish_report None x (log ERROR (Error_reading_report report_file) s2)))"

function get_behavior_report :: "env \<Rightarrow> options \<Rightarrow> state \<Rightarrow> exn option \<times> state" where
  "get_behavior_report e opts s =
     (case pending (behavior_queue s) of
        [] \<Rightarrow> (None, s)
      | x # rest \<Rightarrow>
          (case get_behavior_report_item e opts x (get BehaviorQ x s) of
             (None, s') \<Rightarrow> get_behavior_report e opts s'
           | (Some err, s') \<Rightarrow> (Some err, s')))"
  by pat_completeness auto
termination
  by (relation "measure (\<lambda>(e, opts, s). length (pending (behavior_queue s)))")
    (auto simp: get_behavior_report_item_def execute_request_def finish_report_def
      task_done_def get_def emit_def log_def write_file_def Let_def
      split: if_splits json_result.splits option.splits node.splits prod.splits)

section \<open>The info worker: \<open>get_sample_info\<close>\<close>

text \<open>The inner loop that clears the queue after an API error other than not-found:
  \<open>while not self.info_queue.empty(): get(); task_done()\<close>.\<close>

function drain_info :: "state \<Rightarrow> exn option \<times> state" where
  "drain_info s =
     (case pending (info_queue s) of
        [] \<Rightarrow> (None, s)
      | x # rest \<Rightarrow>
          (case task_done InfoQ (get InfoQ x s) of
             (None, s') \<Rightarrow> drain_info s'
           | (Some err, s') \<Rightarrow> (Some err, s')))"
  by pat_completeness auto
termination
  by (relation "measure (\<lambda>s. length (pending (info_queue s)))")
    (auto simp: task_done_def get_def emit_def Let_def split: if_splits)

text \<open>The body of the \<open>while\<close> loop for the item \<open>x\<close> just taken off the queue. The
  lookup is issued first, for every item. On \<open>NotFoundError\<close> the handler runs
  \<open>continue\<close>, which skips the \<open>task_done\<close> at the end of the body. \<open>os.path.join\<close>
  raises \<open>TypeError\<close> on an item that is not a string.\<close>

definition get_sample_info_item ::
  "env \<Rightarrow> options \<Rightarrow> item \<Rightarrow> artifact list \<Rightarrow> state
    \<Rightarrow> exn option \<times> artifact list \<times> state" where
  "get_sample_info_item e opts x samples s =
     (case x of
        Obj a \<Rightarrow> (Some TypeError, samples, s)
      | Hash sample_id \<Rightarrow>
          (let path = path_join (lit ''/files'') sample_id;
               s1 = emit [NetGetObject path] s
           in case get_object e path of
                Inr result \<Rightarrow>
                  (case display_information e result (path_join (info_dir opts) sample_id) s1 of
                     (Some err, s2) \<Rightarrow> (Some err, samples, s2)
                   | (None, s2) \<Rightarrow>
                       (case task_done InfoQ s2 of (r, s3) \<Rightarrow> (r, samples @ [result], s3)))
              | Inl code \<Rightarrow>
                  if code = (lit ''NotFoundError'') then
                    (None, samples, log WARNING (Sample_not_found sample_id) s1)
                  else
                    (case drain_info (log_api_error code s1) of
                       (Some err, s2) \<Rightarrow> (Some err, samples, s2)
                     | (None, s2) \<Rightarrow>
                         (case task_done InfoQ s2 of (r, s3) \<Rightarrow> (r, samples, s3)))))"

function get_sample_info ::
  "env \<Rightarrow> options \<Rightarrow> artifact list \<Rightarrow> state \<Rightarrow> exn option \<times> artifact list \<times> state" where
  "get_sample_info e opts samples s =
     (case pending (info_queue s) of
        [] \<Rightarrow> (None, samples, s)
      | x # rest \<Rightarrow>
          (case get_sample_info_item e opts x samples (get InfoQ x s) of
             (None, samples', s') \<Rightarrow> get_sample_info e opts samples' s'
           | (Some err, samples', s') \<Rightarrow> (Some err, samples', s')))"
  by pat_completeness auto
termination
proof -
  have drain: "length (pending (info_queue (snd (drain_info s)))) \<le> length (pending (info_queue s))"
    for s
  proof (induction s rule: drain_info.induct)
    case (1 s)
    show ?case
    proof (cases "pending (info_queue s)")
      case Nil
      then show ?thesis by simp
    next
      case (Cons x rest)
      obtain r s' where td: "task_done InfoQ (get InfoQ x s) = (r, s')"
        by (cases "task_done InfoQ (get InfoQ x s)")
      have len: "length (pending (info_queue s')) \<le> length (pending (info_queue s))"
        using td Cons
        by (auto simp: task_done_def get_def emit_def Let_def split: if_splits)
      show ?thesis
      proof (cases r)
        case None
        with "1.IH" [OF Cons td [symmetric]] len Cons td show ?thesis by simp
      next
        case (Some err)
        with len Cons td show ?thesis by simp
      qed
    qed
  qed
  have lae: "info_queue (log_api_error code s) = info_queue s" for code s
    by (simp add: log_api_error_def log_def emit_def)
  have di: "info_queue (snd (display_information e a p s)) = info_queue s" for e a p s
    by (simp add: display_information_def log_def emit_def write_file_def Let_def)
  have td: "pending (info_queue (snd (task_done InfoQ s))) = pending (info_queue s)" for s
    by (simp add: task_done_def emit_def Let_def)
  have item: "length (pending (info_queue s')) \<le> length (pending (info_queue s))"
    if it: "get_sample_info_item e opts x samples s = (r, samples', s')"
    for e opts x samples s r samples' s'
  proof (cases x)
    case (Obj a)
    with it show ?thesis by (simp add: get_sample_info_item_def)
  next
    case (Hash h)
    define s1 where "s1 = emit [NetGetObject (path_join (lit ''/files'') h)] s"
    have s1: "info_queue s1 = info_queue s" by (simp add: s1_def emit_def)
    show ?thesis
    proof (cases "get_object e (path_join (lit ''/files'') h)")
      case (Inr result)
      obtain r2 s2 where d: "display_information e result (path_join (info_dir opts) h) s1 = (r2, s2)"
        by (cases "display_information e result (path_join (info_dir opts) h) s1")
      have "info_queue s2 = info_queue s1" using di [of e result "path_join (info_dir opts) h" s1] d by simp
      with it Hash Inr d s1 td [of s2] show ?thesis
        by (auto simp: get_sample_info_item_def Let_def s1_def [symmetric]
            split: option.splits prod.splits)
    next
      case (Inl code)
      show ?thesis
      proof (cases "code = (lit ''NotFoundError'')")
        case True
        with it Hash Inl s1 show ?thesis
          by (auto simp: get_sample_info_item_def Let_def s1_def [symmetric] log_def emit_def)
      next
        case False
        obtain r2 s2 where d: "drain_info (log_api_error code s1) = (r2, s2)"
          by (cases "drain_info (log_api_error code s1)")
        have "length (pending (info_queue s2)) \<le> length (pending (info_queue s))"
          using drain [of "log_api_error code s1"] d lae [of code s1] s1 by simp
        with it Hash Inl False d td [of s2] show ?thesis
          by (auto simp: get_sample_info_item_def Let_def s1_def [symmetric]
              simp del: drain_info.simps split: option.splits prod.splits)
      qed
    qed
  qed
  show ?thesis
    by (relation "measure (\<lambda>(e, opts, samples, s). length (pending (info_queue s)))")
      (auto dest!: item [OF sym] simp: get_def emit_def Let_def)
qed

section \<open>Tasks and worker pools\<close>

text \<open>\<open>asyncio.create_task\<close>: the new task is identified by its position among the
  tasks created so far. The body of \<open>get_heartbeat\<close> only prints the queue sizes in an
  endless loop; of the monitor the model keeps the task.\<close>

definition create_task :: "task_kind \<Rightarrow> state \<Rightarrow> nat \<times> state" where
  "create_task k s = (length (created s), emit [CreateTask k] (s\<lparr>created := created s @ [k]\<rparr>))"

text \<open>The two coroutines of the download pools.\<close>

datatype role = Behavior | Sample

fun role_kind :: "role \<Rightarrow> task_kind" where
  "role_kind Behavior = BehaviorWorker"
| "role_kind Sample = SampleWorker"

text \<open>\<open>for worker in range(workers)\<close>, appending a behavior task and a sample task as
  the options say.\<close>

fun spawn_workers ::
  "options \<Rightarrow> nat \<Rightarrow> (nat \<times> role) list \<Rightarrow> state \<Rightarrow> (nat \<times> role) list \<times> state" where
  "spawn_workers opts 0 tasks s = (tasks, s)"
| "spawn_workers opts (Suc n) tasks s =
     (let (tasks1, s1) =
            (if dl_behavior opts then
               (let (h, s') = create_task BehaviorWorker s in (tasks @ [(h, Behavior)], s'))
             else (tasks, s));
          (tasks2, s2) =
            (if dl_samples opts then
               (let (h, s') = create_task SampleWorker s1 in (tasks1 @ [(h, Sample)], s'))
             else (tasks1, s1))
      in spawn_workers opts n tasks2 s2)"

fun run_worker :: "env \<Rightarrow> options \<Rightarrow> role \<Rightarrow> state \<Rightarrow> exn option \<times> state" where
  "run_worker e opts Behavior s = get_behavior_report e opts s"
| "run_worker e opts Sample s = get_sample e opts s"

text \<open>\<open>await asyncio.gather(*tasks)\<close>: the workers run in the order of their creation,
  each to its end; the first exception is the one \<open>gather\<close> raises. The state returned
  with an exception is the state in which the exception reaches the driver; what the
  other worker tasks do after that is not modelled.\<close>

fun gather :: "env \<Rightarrow> options \<Rightarrow> (nat \<times> role) list \<Rightarrow> state \<Rightarrow> exn option \<times> state" where
  "gather e opts [] s = (None, s)"
| "gather e opts ((h, r) # tasks) s =
     (case run_worker e opts r s of
        (None, s') \<Rightarrow> gather e opts tasks s'
      | (Some err, s') \<Rightarrow> (Some err, s'))"

text \<open>\<open>for task in tasks: task.cancel()\<close>.\<close>

definition cancel_all :: "nat list \<Rightarrow> state \<Rightarrow> state" where
  "cancel_all tasks s = emit (map Cancel tasks) s"

text \<open>The second half of \<open>search\<close> and of \<open>download_samples\<close> (the same statements in
  both): start the pools, wait for the workers and for both queues, cancel the workers.\<close>

definition run_pools :: "env \<Rightarrow> options \<Rightarrow> state \<Rightarrow> outcome \<times> state" where
  "run_pools e opts s =
     (let (tasks, s1) = spawn_workers opts (workers opts) [] s
      in case gather e opts tasks s1 of
           (Some err, s2) \<Rightarrow> (Raised err, s2)
         | (None, s2) \<Rightarrow>
             (let s3 = emit [Join BehaviorQ] s2
              in if \<not> join_returns BehaviorQ s3 then (Blocked BehaviorQ, s3)
                 else
                   (let s4 = emit [Join SampleQ] s3
                    in if \<not> join_returns SampleQ s4 then (Blocked SampleQ, s4)
                       else (Returned, cancel_all (map fst tasks) s4))))"

section \<open>The search driver: \<open>search\<close>\<close>

definition append_file :: "path \<Rightarrow> pstr \<Rightarrow> state \<Rightarrow> state" where
  "append_file p txt s =
     (case fs s p of
        Some (RegFile c) \<Rightarrow> write_file p (c @ txt) s
      | _ \<Rightarrow> write_file p txt s)"

text \<open>The body of the loop \<open>async for obj in it\<close> for an object of a known type:
  a line in the artifact log \<open>f\<close>, the two queues, the summary.\<close>

definition visit :: "env \<Rightarrow> options \<Rightarrow> path \<Rightarrow> artifact \<Rightarrow> state \<Rightarrow> exn option \<times> state" where
  "visit e opts f obj s =
     (let s1 = (if otype obj \<in> {(lit ''file''), (lit ''domain'')} then
                  append_file f (oid obj @ [Chr (CHR 0x0A)]) s
                else if otype obj = (lit ''url'') then
                  append_file f (oid obj @ (lit '' => '') @ ourl obj @ [Chr (CHR 0x0A)]) s
                else s);
          s2 = (if otype obj = (lit ''file'') then
                  (let s' = (if dl_samples opts then put SampleQ (Obj obj) s1 else s1)
                   in if dl_behavior opts then put BehaviorQ (Obj obj) s' else s')
                else s1)
      in display_information e obj (path_join (info_dir opts) (oid obj)) s2)"

text \<open>The loop over the steps of the iterator.\<close>

fun iterate ::
  "env \<Rightarrow> options \<Rightarrow> path \<Rightarrow> (pstr + artifact) list \<Rightarrow> state \<Rightarrow> exn option \<times> state" where
  "iterate e opts f [] s = (None, s)"
| "iterate e opts f (Inl code # it) s = (Some (APIError code), s)"
| "iterate e opts f (Inr obj # it) s =
     (if otype obj \<notin> {(lit ''file''), (lit ''url''), (lit ''domain'')} then
        iterate e opts f it (log WARNING (Unknown_artifact_type (otype obj) (oid obj)) s)
      else
        (case visit e opts f obj s of
           (None, s3) \<Rightarrow> iterate e opts f it s3
         | (Some err, s3) \<Rightarrow> (Some err, s3)))"

text \<open>The heartbeat task is created before the artifact log is opened and before the
  iteration starts; its handle is not kept. An \<open>APIError\<close> of the iteration is logged and
  ends \<open>search\<close> with \<open>return None\<close>; any other exception leaves \<open>search\<close>.\<close>

definition search :: "env \<Rightarrow> options \<Rightarrow> state \<Rightarrow> outcome \<times> state" where
  "search e opts s =
     (let s1 = log DEFAULT (Running_query (query opts)) s;
          artifact_log = path_join (download_dir opts) (artifacts opts);
          (hb, s2) = create_task Heartbeat s1
      in if cannot_open e s2 artifact_log then (Raised IOError, s2)
         else
           (case iterate e opts artifact_log (iterator e (query opts) (limit opts))
                   (write_file artifact_log [] s2) of
              (None, s3) \<Rightarrow> run_pools e opts s3
            | (Some (APIError code), s3) \<Rightarrow> (Returned, log_api_error code s3)
            | (Some err, s3) \<Rightarrow> (Raised err, s3)))"

section \<open>The batch loader: \<open>download_samples\<close>\<close>

fun spawn_info :: "nat \<Rightarrow> nat list \<Rightarrow> state \<Rightarrow> nat list \<times> state" where
  "spawn_info 0 tasks s = (tasks, s)"
| "spawn_info (Suc n) tasks s =
     (let (h, s') = create_task InfoWorker s in spawn_info n (tasks @ [h]) s')"

text \<open>\<open>results = await asyncio.gather(*tasks)\<close> for the info workers: the list of the
  lists they return.\<close>

fun gather_info ::
  "env \<Rightarrow> options \<Rightarrow> nat list \<Rightarrow> artifact list list \<Rightarrow> state
    \<Rightarrow> exn option \<times> artifact list list \<times> state" where
  "gather_info e opts [] results s = (None, results, s)"
| "gather_info e opts (h # tasks) results s =
     (case get_sample_info e opts [] s of
        (None, samples, s') \<Rightarrow> gather_info e opts tasks (results @ [samples]) s'
      | (Some err, samples, s') \<Rightarrow> (Some err, results, s'))"

text \<open>\<open>for worker in results: for sample in worker: ...\<close>.\<close>

fun enqueue_worker :: "options \<Rightarrow> artifact list \<Rightarrow> state \<Rightarrow> state" where
  "enqueue_worker opts [] s = s"
| "enqueue_worker opts (sample # worker) s =
     (let s1 = (if dl_samples opts then put SampleQ (Obj sample) s else s);
          s2 = (if dl_behavior opts then put BehaviorQ (Obj sample) s1 else s1)
      in enqueue_worker opts worker s2)"

fun enqueue_results :: "options \<Rightarrow> artifact list list \<Rightarrow> state \<Rightarrow> state" where
  "enqueue_results opts [] s = s"
| "enqueue_results opts (worker # results) s =
     enqueue_results opts results (enqueue_worker opts worker s)"

text \<open>\<open>download_samples\<close>, called with the lines \<open>f\<close> of the opened hash file.\<close>

definition download_samples ::
  "env \<Rightarrow> options \<Rightarrow> pstr list \<Rightarrow> state \<Rightarrow> outcome \<times> state" where
  "download_samples e opts f s =
     (let (hb, s1) = create_task Heartbeat s;
          (samples, s2) = read_hashes e f [] s1;
          (tasks, s3) = spawn_info (workers opts) [] s2
      in case gather_info e opts tasks [] s3 of
           (Some err, results, s4) \<Rightarrow> (Raised err, s4)
         | (None, results, s4) \<Rightarrow>
             (let s5 = emit [Join InfoQ] s4
              in if \<not> join_returns InfoQ s5 then (Blocked InfoQ, s5)
                 else run_pools e opts (enqueue_results opts results (cancel_all tasks s5))))"

section \<open>Observations on traces, and concrete inputs\<close>

text \<open>The identifiers for which \<open>download_file_async\<close> was called, in order.\<close>

definition downloads :: "event list \<Rightarrow> pstr list" where
  "downloads tr = concat (map (\<lambda>ev. case ev of NetDownload i \<Rightarrow> [i] | _ \<Rightarrow> []) tr)"

text \<open>The events that are calls to the remote API.\<close>

fun net_event :: "event \<Rightarrow> bool" where
  "net_event (NetGetObject p) = True"
| "net_event (NetGetJson u) = True"
| "net_event (NetDownload i) = True"
| "net_event ev = False"

text \<open>A configuration and an outside world used to run the code on concrete inputs: no
  I/O failures, every download succeeds, every lookup answers not-found; of the Unicode
  decimal digits from U+0100 on, the table has the Arabic-Indic digits U+0660 to U+0669.\<close>

definition test_opts :: options where
  "test_opts = \<lparr>query = (lit ''q''), limit = 300, workers = 1, dl_samples = True, dl_behavior = True,
     download_dir = (lit ''out''), samples_dir = (lit ''samples''), reports_dir = (lit ''reports''),
     info_dir = (lit ''info''), artifacts = (lit ''artifacts.txt'')\<rparr>"

definition test_env :: env where
  "test_env = \<lparr>iterator = (\<lambda>q n. []), get_object = (\<lambda>p. Inl (lit ''NotFoundError'')),
     get_json = (\<lambda>u. JNoData), download_file = (\<lambda>i. DlOk (lit ''MZ'')),
     open_fails = (\<lambda>p. False), undecodable = (\<lambda>c. False), valid_json = (\<lambda>c. True),
     render = (\<lambda>a. oid a), unicode_digit = (\<lambda>cp. 0x660 \<le> cp \<and> cp \<le> 0x669)\<rparr>"

text \<open>An outside world in which every lookup and every report fetch fails with a quota
  error.\<close>

definition quota_env :: env where
  "quota_env = test_env\<lparr>get_object := (\<lambda>p. Inl (lit ''QuotaExceededError'')),
     get_json := (\<lambda>u. JApiError (lit ''QuotaExceededError''))\<rparr>"

text \<open>An outside world in which every lookup finds the file object \<open>abc\<close>.\<close>

definition found_env :: env where
  "found_env = test_env\<lparr>get_object := (\<lambda>p. Inr \<lparr>otype = (lit ''file''), oid = (lit ''abc''), ourl = []\<rparr>)\<rparr>"

text \<open>An outside world whose search yields the one file object \<open>abc\<close>, and one whose
  search fails at once with an authorization error.\<close>

definition one_env :: env where
  "one_env = test_env\<lparr>iterator := (\<lambda>q n. [Inr \<lparr>otype = (lit ''file''), oid = (lit ''abc''), ourl = []\<rparr>])\<rparr>"

definition forbidden_env :: env where
  "forbidden_env = test_env\<lparr>iterator := (\<lambda>q n. [Inl (lit ''ForbiddenError'')])\<rparr>"

text \<open>\<open>quiet s s'\<close>: from \<open>s\<close> to \<open>s'\<close> no task was created and the trace grew by events
  none of which is a cancellation.\<close>

definition quiet :: "state \<Rightarrow> state \<Rightarrow> bool" where
  "quiet s s' =
     (created s' = created s \<and>
      (\<exists>evs. trace s' = trace s @ evs \<and> (\<forall>h. Cancel h \<notin> set evs)))"

text \<open>\<open>spawned tasks s tasks' s'\<close>: from \<open>s\<close> to \<open>s'\<close> tasks were created and nothing
  was cancelled, and \<open>tasks'\<close> extends \<open>tasks\<close> by exactly the handles of the new
  tasks.\<close>

definition spawned :: "(nat \<times> role) list \<Rightarrow> state \<Rightarrow> (nat \<times> role) list \<Rightarrow> state \<Rightarrow> bool" where
  "spawned tasks s tasks' s' =
     ((\<exists>ks. created s' = created s @ ks) \<and>
      map fst tasks' = map fst tasks @ [length (created s)..<length (created s')] \<and>
      (\<exists>evs. trace s' = trace s @ evs \<and> (\<forall>h. Cancel h \<notin> set evs)))"

section \<open>Properties of the batch loader\<close>

lemma remdups_snoc:
  "remdups (ys @ [x]) = filter (\<lambda>y. y \<noteq> x) (remdups ys) @ [x]"
  by (induction ys) auto

lemma first_occ_Cons:
  "rev (remdups (rev (x # xs))) = x # filter (\<lambda>y. y \<noteq> x) (rev (remdups (rev xs)))"
  by (simp add: remdups_snoc rev_filter)

lemma filter_seen:
  "x \<in> set seen \<Longrightarrow>
   filter (\<lambda>y. y \<noteq> x \<and> y \<notin> set seen) xs = filter (\<lambda>d. d \<notin> set seen) xs"
  by (induction xs) auto

lemma filter_unseen:
  "filter (\<lambda>d. d \<notin> set (seen @ [x])) xs = filter (\<lambda>y. y \<noteq> x \<and> y \<notin> set seen) xs"
  by (induction xs) auto

text \<open>The loop puts, in this order, the first occurrences of the accepted stripped lines
  that are not yet in \<open>samples\<close>. (\<open>remdups\<close> keeps the last occurrence of each element,
  so on the reversed list it keeps the first.)\<close>

lemma read_hashes_fold:
  "read_hashes e f samples s =
     (let new = filter (\<lambda>d. d \<notin> set samples)
            (rev (remdups (rev (filter (\<lambda>d. md5 e d \<or> sha1 e d \<or> sha256 e d) (map strip f)))))
      in (samples @ new, foldl (\<lambda>s d. put InfoQ (Hash d) s) s new))"
proof (induction f arbitrary: samples s)
  case Nil
  then show ?case by simp
next
  case (Cons line f)
  show ?case
  proof (cases "md5 e (strip line) \<or> sha1 e (strip line) \<or> sha256 e (strip line)")
    case False
    then show ?thesis using Cons.IH [of samples s] by (simp add: Let_def)
  next
    case ok: True
    show ?thesis
    proof (cases "strip line \<in> set samples")
      case True
      with ok show ?thesis using Cons.IH [of samples s]
        by (simp add: Let_def first_occ_Cons filter_seen del: rev.simps remdups.simps)
    next
      case False
      with ok show ?thesis
        using Cons.IH [of "samples @ [strip line]" "put InfoQ (Hash (strip line)) s"]
        by (simp add: Let_def first_occ_Cons filter_unseen
            del: rev.simps remdups.simps set_append)
    qed
  qed
qed

lemma pending_put_info:
  "pending (info_queue (put InfoQ x s)) = pending (info_queue s) @ [x]"
  by (simp add: put_def emit_def Let_def)

lemma trace_put: "trace (put n x s) = trace s @ [Put n x]"
  by (cases n) (simp_all add: put_def emit_def Let_def)

lemma foldl_put_pending:
  "pending (info_queue (foldl (\<lambda>s d. put InfoQ (Hash d) s) s new)) =
     pending (info_queue s) @ map Hash new"
  by (induction new arbitrary: s) (simp_all add: pending_put_info)

lemma foldl_put_trace:
  "trace (foldl (\<lambda>s d. put InfoQ (Hash d) s) s new) =
     trace s @ map (\<lambda>d. Put InfoQ (Hash d)) new"
  by (induction new arbitrary: s) (simp_all add: trace_put)

lemma accepted_ids:
  "filter (\<lambda>d. md5 e d \<or> sha1 e d \<or> sha256 e d) (map strip f) =
     map strip (filter (accepted e) f)"
proof -
  have "accepted e = (\<lambda>x. md5 e (strip x) \<or> sha1 e (strip x) \<or> sha256 e (strip x))"
    by (auto simp: accepted_def Let_def fun_eq_iff)
  then show ?thesis by (simp add: filter_map comp_def)
qed

lemma re_match_longer: "m \<le> n \<Longrightarrow> re_match e n data \<Longrightarrow> re_match e m data"
  using set_take_subset_set_take [of m n data] by (auto simp: re_match_def list_all_iff)

lemma accepted_iff_md5: "accepted e line = re_match e 32 (strip line)"
  using re_match_longer [of 32 40 e "strip line"] re_match_longer [of 32 64 e "strip line"]
  by (auto simp: accepted_def md5_def sha1_def sha256_def Let_def)

text \<open>A hexadecimal character belongs to the class \<open>[a-fA-F\d]\<close>, whatever the table of
  the further Unicode digits.\<close>

lemma spec_hexadecimal_hexchar: "spec_hexadecimal c \<Longrightarrow> hexchar e c"
  by (cases c) (auto simp: spec_hexadecimal_def hexchar_def)

lemma re_match_exact:
  "length data \<in> {32, 40, 64} \<Longrightarrow> list_all spec_hexadecimal data \<Longrightarrow> re_match e 32 data"
  unfolding re_match_def list_all_iff
  by (auto dest: in_set_takeD intro: spec_hexadecimal_hexchar)

text \<open>
  C8. The batch loader deduplicates the accepted identifiers by exact string match before
  it enqueues them: whatever the lines \<open>f\<close> of the file, the items put into the Info queue
  are the distinct accepted identifiers (the stripped accepted lines), each once, in the
  order of their first occurrence in the file; their number is the number of distinct
  accepted identifiers.
\<close>

theorem batch_loader_dedup:
  "let ids = map strip (filter (accepted e) f);
       q = rev (remdups (rev ids));
       s' = snd (read_hashes e f [] s)
   in trace s' = trace s @ map (\<lambda>d. Put InfoQ (Hash d)) q
      \<and> pending (info_queue s') = pending (info_queue s) @ map Hash q
      \<and> distinct q \<and> set q = set ids \<and> length q = card (set ids)"
proof -
  have "length (rev (remdups (rev ids))) = card (set ids)" for ids :: "pstr list"
    using length_remdups_card_conv [of "rev ids"] by simp
  then show ?thesis
    by (simp add: Let_def read_hashes_fold foldl_put_pending foldl_put_trace accepted_ids
        del: set_map)
qed

theorem batch_loader_dedup_witness:
  "pending (info_queue (snd (read_hashes test_env
      [lit ''d41d8cd98f00b204e9800998ecf8427e'' @ [Chr (CHR 0x0A)],
       lit ''not-a-hash'' @ [Chr (CHR 0x0A)],
       lit ''da39a3ee5e6b4b0d3255bfef95601890afd80709'' @ [Chr (CHR 0x0A)],
       lit ''d41d8cd98f00b204e9800998ecf8427e'' @ [Chr (CHR 0x0A)]] [] (init_state Map.empty)))) =
     [Hash (lit ''d41d8cd98f00b204e9800998ecf8427e''),
      Hash (lit ''da39a3ee5e6b4b0d3255bfef95601890afd80709'')]"
  using batch_loader_dedup [of test_env
      "[lit ''d41d8cd98f00b204e9800998ecf8427e'' @ [Chr (CHR 0x0A)],
        lit ''not-a-hash'' @ [Chr (CHR 0x0A)],
        lit ''da39a3ee5e6b4b0d3255bfef95601890afd80709'' @ [Chr (CHR 0x0A)],
        lit ''d41d8cd98f00b204e9800998ecf8427e'' @ [Chr (CHR 0x0A)]]" "init_state Map.empty"]
  by (simp add: Let_def accepted_def strip_def strip_char_def md5_def sha1_def sha256_def
      re_match_def hexchar_def lit_def init_state_def empty_queue_def
      del: read_hashes.simps)

text \<open>
  C4 (as amended). A line is accepted as an identifier if, after newline and space
  characters are stripped at both of its ends, it consists of exactly 32, 40 or 64
  hexadecimal characters. A line whose stripped form does not begin with 32 characters
  of the class \<open>[a-fA-F\d]\<close> (the letters a to f in either case and the Unicode decimal
  digits) is not accepted; the loader passes over it without any effect, so it never
  reaches the Info queue.
\<close>

theorem hash_line_filter:
  "(length (strip line) \<in> {32, 40, 64} \<and> list_all spec_hexadecimal (strip line) \<longrightarrow>
      accepted e line) \<and>
   (\<not> (32 \<le> length (strip other) \<and> list_all (hexchar e) (take 32 (strip other))) \<longrightarrow>
      \<not> accepted e other \<and> read_hashes e (other # f) samples s = read_hashes e f samples s)"
proof (intro conjI impI)
  assume "length (strip line) \<in> {32, 40, 64} \<and> list_all spec_hexadecimal (strip line)"
  then show "accepted e line"
    using re_match_exact [of "strip line" e] by (simp add: accepted_iff_md5)
next
  assume "\<not> (32 \<le> length (strip other) \<and> list_all (hexchar e) (take 32 (strip other)))"
  then have no: "\<not> accepted e other" by (simp add: accepted_iff_md5 re_match_def)
  then show "\<not> accepted e other" .
  from no show "read_hashes e (other # f) samples s = read_hashes e f samples s"
    by (simp add: accepted_def Let_def)
qed

theorem hash_line_filter_witness:
  "accepted test_env (lit ''d41d8cd98f00b204e9800998ecf8427e'' @ [Chr (CHR 0x0A)]) \<and>
   \<not> accepted test_env (lit ''not-a-hash'') \<and>
   read_hashes test_env [lit ''not-a-hash''] [] (init_state Map.empty) =
     ([], init_state Map.empty)"
  using hash_line_filter [of "lit ''d41d8cd98f00b204e9800998ecf8427e'' @ [Chr (CHR 0x0A)]"
      test_env "lit ''not-a-hash''" "[]" "[]" "init_state Map.empty"]
  by (simp add: strip_def strip_char_def hexchar_def spec_hexadecimal_def lit_def)

text \<open>
  C4 as stated fails on the code in three ways. A line with leading spaces before 32
  hexadecimal characters is accepted, because \<open>strip\<close> works at both ends; a line of 33
  hexadecimal characters is accepted, because \<open>match\<close> anchors the pattern at the start
  only; and a line of 32 Arabic-Indic digits (U+0663, the code point \<open>256 + 1379\<close>) is
  accepted, because \<open>\d\<close> matches every Unicode decimal digit. None of the three lines has
  one of the three shapes once its trailing newline and spaces are removed.
\<close>

theorem hash_line_filter_counterexample:
  "accepted test_env (lit ''  d41d8cd98f00b204e9800998ecf8427e'') \<and>
   \<not> spec_accepted (lit ''  d41d8cd98f00b204e9800998ecf8427e'') \<and>
   accepted test_env (lit ''d41d8cd98f00b204e9800998ecf8427e0'') \<and>
   \<not> spec_accepted (lit ''d41d8cd98f00b204e9800998ecf8427e0'') \<and>
   accepted test_env (replicate 32 (Uni 1379)) \<and>
   \<not> spec_accepted (replicate 32 (Uni 1379))"
  by (simp add: accepted_def strip_def strip_char_def md5_def re_match_def hexchar_def
      spec_accepted_def spec_strip_trailing_def spec_hexadecimal_def lit_def test_env_def
      list_all_iff)

section \<open>Basic facts about the state operations\<close>

lemma emit_simps [simp]:
  "fs (emit evs s) = fs s" "trace (emit evs s) = trace s @ evs"
  "info_queue (emit evs s) = info_queue s" "sample_queue (emit evs s) = sample_queue s"
  "behavior_queue (emit evs s) = behavior_queue s" "created (emit evs s) = created s"
  by (simp_all add: emit_def)

lemma log_simps [simp]:
  "fs (log l m s) = fs s" "trace (log l m s) = trace s @ [Log l m]"
  "info_queue (log l m s) = info_queue s" "sample_queue (log l m s) = sample_queue s"
  "behavior_queue (log l m s) = behavior_queue s" "created (log l m s) = created s"
  by (simp_all add: log_def)

lemma write_file_simps [simp]:
  "fs (write_file p c s) = (fs s)(p \<mapsto> RegFile c)" "trace (write_file p c s) = trace s"
  "info_queue (write_file p c s) = info_queue s" "sample_queue (write_file p c s) = sample_queue s"
  "behavior_queue (write_file p c s) = behavior_queue s" "created (write_file p c s) = created s"
  by (simp_all add: write_file_def)

lemma get_simps [simp]:
  "fs (get n x s) = fs s" "trace (get n x s) = trace s @ [Get n x]"
  "created (get n x s) = created s"
  "pending (get_queue n (get n x s)) = tl (pending (get_queue n s))"
  "unfinished (get_queue n (get n x s)) = unfinished (get_queue n s)"
  by (cases n; simp add: get_def Let_def)+

lemma downloads_simps [simp]:
  "downloads [] = []"
  "downloads (ev # tr) = (case ev of NetDownload i \<Rightarrow> [i] | _ \<Rightarrow> []) @ downloads tr"
  "downloads (tr @ tr') = downloads tr @ downloads tr'"
  by (simp_all add: downloads_def)

lemma task_done_simps [simp]:
  "fs (snd (task_done n s)) = fs s"
  "created (snd (task_done n s)) = created s"
  "pending (get_queue n (snd (task_done n s))) = pending (get_queue n s)"
  "downloads (trace (snd (task_done n s))) = downloads (trace s)"
  by (cases n; simp add: task_done_def Let_def)+

lemma isfile_fs: "fs s = fs s' \<Longrightarrow> isfile s p = isfile s' p"
  by (simp add: isfile_def)

section \<open>Properties of the sample worker\<close>

lemma get_sample_item_hit:
  assumes "isfile s (path_join (samples_dir opts) (item_id x))"
  shows "fs (snd (get_sample_item e opts x s)) = fs s"
    and "downloads (trace (snd (get_sample_item e opts x s))) = downloads (trace s)"
    and "pending (sample_queue (snd (get_sample_item e opts x s))) = pending (sample_queue s)"
  using assms isfile_fs [of "emit [IsFile (path_join (samples_dir opts) (item_id x))] s" s]
    task_done_simps(3) [of SampleQ]
  by (simp_all add: get_sample_item_def Let_def)

text \<open>A queue of items that are all on disk is worked off without a download and without
  a change of the disk.\<close>

lemma get_sample_all_hits:
  "\<forall>x\<in>set (pending (sample_queue s)). isfile s (path_join (samples_dir opts) (item_id x)) \<Longrightarrow>
   fs (snd (get_sample e opts s)) = fs s \<and>
   downloads (trace (snd (get_sample e opts s))) = downloads (trace s)"
proof (induction e opts s rule: get_sample.induct)
  case (1 e opts s)
  show ?case
  proof (cases "pending (sample_queue s)")
    case Nil
    then show ?thesis by simp
  next
    case (Cons x rest)
    let ?g = "get SampleQ x s"
    obtain r s' where it: "get_sample_item e opts x ?g = (r, s')"
      by (cases "get_sample_item e opts x ?g")
    have hit: "isfile ?g (path_join (samples_dir opts) (item_id x))"
      using "1.prems" Cons isfile_fs [of ?g s] by simp
    have fs': "fs s' = fs s" and dl': "downloads (trace s') = downloads (trace s)"
      and pd': "pending (sample_queue s') = rest"
      using get_sample_item_hit [OF hit, of e] it Cons get_simps(4) [of SampleQ x s] by simp_all
    show ?thesis
    proof (cases r)
      case (Some err)
      with it Cons fs' dl' show ?thesis by simp
    next
      case None
      have "\<forall>y\<in>set (pending (sample_queue s')). isfile s' (path_join (samples_dir opts) (item_id y))"
        using "1.prems" Cons pd' isfile_fs [OF fs'] by simp
      from "1.IH" [OF Cons it [symmetric] None this] it Cons None fs' dl'
      show ?thesis by simp
    qed
  qed
qed

lemma get_sample_single_ok:
  assumes "pending (sample_queue s) = [x]" "0 < unfinished (sample_queue s)"
    "\<not> isfile s p" "\<not> cannot_open e s p" "download_file e (item_id x) = DlOk bytes"
    "p = path_join (samples_dir opts) (item_id x)"
  shows "fst (get_sample e opts s) = None"
    and "fs (snd (get_sample e opts s)) = (fs s)(p \<mapsto> RegFile bytes)"
    and "downloads (trace (snd (get_sample e opts s))) = downloads (trace s) @ [item_id x]"
    and "pending (sample_queue (snd (get_sample e opts s))) = []"
  using assms
  by (simp_all add: get_sample_item_def task_done_def get_def Let_def isfile_def cannot_open_def)

lemma get_sample_single_api_error:
  assumes "pending (sample_queue s) = x # rest"
    "\<not> isfile s p" "\<not> cannot_open e s p" "download_file e (item_id x) = DlApiError code partial"
    "p = path_join (samples_dir opts) (item_id x)"
  shows "get_sample e opts s =
     (Some (APIError code),
      write_file p partial (emit [IsFile p, NetDownload (item_id x)] (get SampleQ x s)))"
  using assms
  by (simp add: get_sample_item_def get_def Let_def isfile_def cannot_open_def emit_def
      write_file_def)

text \<open>
  C5. When the sample worker is invoked for identifiers whose target file
  \<open>{samples_dir}/{id}\<close> is already on disk, it makes no download call and leaves the disk
  as it is. Hence, after a first run that downloaded an identifier successfully, a second
  run over the same identifier makes no network call and leaves the content on disk
  unchanged, whatever the remote side would answer then.
\<close>

theorem sample_cache_idempotent:
  "((\<forall>y\<in>set (pending (sample_queue s)). isfile s (path_join (samples_dir opts) (item_id y))) \<longrightarrow>
      fs (snd (get_sample e opts s)) = fs s \<and>
      downloads (trace (snd (get_sample e opts s))) = downloads (trace s)) \<and>
   (pending (sample_queue s0) = [x] \<and> 0 < unfinished (sample_queue s0) \<and>
    p = path_join (samples_dir opts) (item_id x) \<and> \<not> isfile s0 p \<and> \<not> cannot_open e1 s0 p \<and>
    download_file e1 (item_id x) = DlOk bytes \<longrightarrow>
      (let s1 = snd (get_sample e1 opts s0);
           s2 = snd (get_sample e2 opts (put SampleQ x s1))
       in fst (get_sample e1 opts s0) = None \<and>
          fs s1 = (fs s0)(p \<mapsto> RegFile bytes) \<and>
          downloads (trace s1) = downloads (trace s0) @ [item_id x] \<and>
          fs s2 = fs s1 \<and>
          downloads (trace s2) = downloads (trace s1)))"
proof (intro conjI impI)
  assume "\<forall>y\<in>set (pending (sample_queue s)). isfile s (path_join (samples_dir opts) (item_id y))"
  from get_sample_all_hits [OF this]
  show "fs (snd (get_sample e opts s)) = fs s"
    and "downloads (trace (snd (get_sample e opts s))) = downloads (trace s)"
    by simp_all
next
  assume a: "pending (sample_queue s0) = [x] \<and> 0 < unfinished (sample_queue s0) \<and>
    p = path_join (samples_dir opts) (item_id x) \<and> \<not> isfile s0 p \<and> \<not> cannot_open e1 s0 p \<and>
    download_file e1 (item_id x) = DlOk bytes"
  define s1 where "s1 = snd (get_sample e1 opts s0)"
  from a have h: "pending (sample_queue s0) = [x]" "0 < unfinished (sample_queue s0)"
    "\<not> isfile s0 p" "\<not> cannot_open e1 s0 p" "download_file e1 (item_id x) = DlOk bytes"
    "p = path_join (samples_dir opts) (item_id x)"
    by blast+
  note first = get_sample_single_ok [OF h, folded s1_def]
  let ?s1' = "put SampleQ x s1"
  have "pending (sample_queue ?s1') = [x]" "fs ?s1' = fs s1" "trace ?s1' = trace s1 @ [Put SampleQ x]"
    using first(4) by (simp_all add: put_def Let_def)
  moreover have "isfile ?s1' p"
    using first(2) \<open>fs ?s1' = fs s1\<close> by (simp add: isfile_def)
  ultimately have "fs (snd (get_sample e2 opts ?s1')) = fs s1"
    "downloads (trace (snd (get_sample e2 opts ?s1'))) = downloads (trace s1)"
    using get_sample_all_hits [of ?s1' opts e2] a by simp_all
  with first show "let s1 = snd (get_sample e1 opts s0);
           s2 = snd (get_sample e2 opts (put SampleQ x s1))
       in fst (get_sample e1 opts s0) = None \<and>
          fs s1 = (fs s0)(p \<mapsto> RegFile bytes) \<and>
          downloads (trace s1) = downloads (trace s0) @ [item_id x] \<and>
          fs s2 = fs s1 \<and>
          downloads (trace s2) = downloads (trace s1)"
    by (simp add: Let_def s1_def)
qed

theorem sample_cache_idempotent_witness:
  "fs (snd (get_sample test_env test_opts
         (put SampleQ (Hash (lit ''abc'')) (init_state [(lit ''samples/abc'') \<mapsto> RegFile (lit ''MZ'')])))) =
     [(lit ''samples/abc'') \<mapsto> RegFile (lit ''MZ'')] \<and>
   downloads (trace (snd (get_sample test_env test_opts
         (put SampleQ (Hash (lit ''abc'')) (init_state [(lit ''samples/abc'') \<mapsto> RegFile (lit ''MZ'')]))))) = [] \<and>
   (let s1 = snd (get_sample test_env test_opts (put SampleQ (Hash (lit ''abc'')) (init_state Map.empty)));
        s2 = snd (get_sample (test_env\<lparr>download_file := (\<lambda>i. DlOk (lit ''other''))\<rparr>) test_opts
                   (put SampleQ (Hash (lit ''abc'')) s1))
    in fs s1 = [(lit ''samples/abc'') \<mapsto> RegFile (lit ''MZ'')] \<and> downloads (trace s1) = [(lit ''abc'')] \<and>
       fs s2 = fs s1 \<and> downloads (trace s2) = downloads (trace s1))"
  using sample_cache_idempotent [of
      "put SampleQ (Hash (lit ''abc'')) (init_state [(lit ''samples/abc'') \<mapsto> RegFile (lit ''MZ'')])"
      test_opts test_env
      "put SampleQ (Hash (lit ''abc'')) (init_state Map.empty)" "Hash (lit ''abc'')" "(lit ''samples/abc'')"
      test_env "(lit ''MZ'')" "test_env\<lparr>download_file := (\<lambda>i. DlOk (lit ''other''))\<rparr>"]
  by (simp add: test_opts_def lit_def test_env_def put_def init_state_def empty_queue_def isfile_def
      cannot_open_def path_join_def Let_def emit_def
      del: get_sample.simps)

text \<open>
  C10. If the download fails with an API error after the file \<open>{samples_dir}/{id}\<close> was
  opened for writing, the worker does not catch the error: it ends with that error, the
  item is not marked done, and the file stays on disk with whatever the download wrote
  (possibly nothing), so the disk is not as it was before. Every later invocation for the
  same identifier that finds this file treats it as a cache hit: it makes no download call
  and leaves the file as it is.
\<close>

theorem failed_download_leaves_file:
  assumes q: "pending (sample_queue s) = x # rest"
    and p: "p = path_join (samples_dir opts) (item_id x)"
    and miss: "\<not> isfile s p" and op: "\<not> cannot_open e s p"
    and dl: "download_file e (item_id x) = DlApiError code partial"
  shows "fst (get_sample e opts s) = Some (APIError code) \<and>
         fs (snd (get_sample e opts s)) = (fs s)(p \<mapsto> RegFile partial) \<and>
         fs (snd (get_sample e opts s)) \<noteq> fs s \<and>
         unfinished (sample_queue (snd (get_sample e opts s))) = unfinished (sample_queue s) \<and>
         (\<forall>e2 s2. pending (sample_queue s2) = [x] \<and> fs s2 p = Some (RegFile partial) \<longrightarrow>
            fs (snd (get_sample e2 opts s2)) = fs s2 \<and>
            downloads (trace (snd (get_sample e2 opts s2))) = downloads (trace s2))"
proof -
  note run = get_sample_single_api_error [OF q miss op dl p]
  have "fs s p \<noteq> Some (RegFile partial)"
    using miss by (auto simp: isfile_def)
  then have changed: "(fs s)(p \<mapsto> RegFile partial) \<noteq> fs s"
    by (metis fun_upd_same)
  have later: "fs (snd (get_sample e2 opts s2)) = fs s2 \<and>
      downloads (trace (snd (get_sample e2 opts s2))) = downloads (trace s2)"
    if "pending (sample_queue s2) = [x] \<and> fs s2 p = Some (RegFile partial)" for e2 s2
    using that get_sample_all_hits [of s2 opts e2] p by (simp add: isfile_def)
  show ?thesis
    using changed later by (simp add: run get_def Let_def del: get_sample.simps)
qed

theorem failed_download_leaves_file_witness:
  "fst (get_sample (test_env\<lparr>download_file := (\<lambda>i. DlApiError (lit ''QuotaExceededError'') [])\<rparr>)
          test_opts (put SampleQ (Hash (lit ''abc'')) (init_state Map.empty))) =
     Some (APIError (lit ''QuotaExceededError'')) \<and>
   fs (snd (get_sample (test_env\<lparr>download_file := (\<lambda>i. DlApiError (lit ''QuotaExceededError'') [])\<rparr>)
          test_opts (put SampleQ (Hash (lit ''abc'')) (init_state Map.empty)))) =
     [(lit ''samples/abc'') \<mapsto> RegFile []] \<and>
   unfinished (sample_queue (snd (get_sample
          (test_env\<lparr>download_file := (\<lambda>i. DlApiError (lit ''QuotaExceededError'') [])\<rparr>)
          test_opts (put SampleQ (Hash (lit ''abc'')) (init_state Map.empty))))) = 1 \<and>
   downloads (trace (snd (get_sample test_env test_opts
          (put SampleQ (Hash (lit ''abc'')) (init_state [(lit ''samples/abc'') \<mapsto> RegFile []]))))) = []"
  using failed_download_leaves_file [of "put SampleQ (Hash (lit ''abc'')) (init_state Map.empty)"
      "Hash (lit ''abc'')" "[]" "(lit ''samples/abc'')" test_opts
      "test_env\<lparr>download_file := (\<lambda>i. DlApiError (lit ''QuotaExceededError'') [])\<rparr>"
      "(lit ''QuotaExceededError'')" "[]"]
  by (simp add: test_opts_def lit_def test_env_def put_def init_state_def empty_queue_def isfile_def
      cannot_open_def path_join_def Let_def emit_def
      del: get_sample.simps)


section \<open>Properties of the info worker\<close>

lemma task_done_ok:
  "0 < unfinished (get_queue n s) \<Longrightarrow>
   task_done n s = (None, emit [TaskDone n]
      (set_queue n ((get_queue n s)\<lparr>unfinished := unfinished (get_queue n s) - 1\<rparr>) s))"
  by (simp add: task_done_def Let_def)

text \<open>The drain loop empties the queue and marks every item it takes as done; it makes no
  call to the remote API.\<close>

lemma drain_info_ok:
  "length (pending (info_queue s)) \<le> unfinished (info_queue s) \<Longrightarrow>
   fst (drain_info s) = None \<and>
   pending (info_queue (snd (drain_info s))) = [] \<and>
   unfinished (info_queue (snd (drain_info s))) =
     unfinished (info_queue s) - length (pending (info_queue s)) \<and>
   filter net_event (trace (snd (drain_info s))) = filter net_event (trace s) \<and>
   fs (snd (drain_info s)) = fs s"
proof (induction s rule: drain_info.induct)
  case (1 s)
  show ?case
  proof (cases "pending (info_queue s)")
    case Nil
    then show ?thesis by simp
  next
    case (Cons x rest)
    define s' where "s' = snd (task_done InfoQ (get InfoQ x s))"
    have td: "task_done InfoQ (get InfoQ x s) = (None, s')"
      using "1.prems" Cons unfolding s'_def
      by (simp add: task_done_def get_def Let_def)
    have props: "pending (info_queue s') = rest"
      "unfinished (info_queue s') = unfinished (info_queue s) - 1"
      "filter net_event (trace s') = filter net_event (trace s)" "fs s' = fs s"
      using "1.prems" Cons unfolding s'_def
      by (simp_all add: task_done_def get_def Let_def)
    have "length (pending (info_queue s')) \<le> unfinished (info_queue s')"
      using "1.prems" Cons props by simp
    from "1.IH" [OF Cons td [symmetric] refl this] props Cons td
    show ?thesis by simp
  qed
qed

text \<open>An API error other than not-found on the head item: the worker drains the queue,
  marks the item done and returns; no item after the failing one is looked up.\<close>

lemma get_sample_info_error_drains:
  assumes q: "pending (info_queue s) = Hash h # rest"
    and err: "get_object e (path_join (lit ''/files'') h) = Inl code"
    and code: "code \<noteq> (lit ''NotFoundError'')"
    and u: "length (pending (info_queue s)) \<le> unfinished (info_queue s)"
  shows "fst (get_sample_info e opts samples s) = None \<and>
     fst (snd (get_sample_info e opts samples s)) = samples \<and>
     pending (info_queue (snd (snd (get_sample_info e opts samples s)))) = [] \<and>
     unfinished (info_queue (snd (snd (get_sample_info e opts samples s)))) =
       unfinished (info_queue s) - length (pending (info_queue s)) \<and>
     filter net_event (trace (snd (snd (get_sample_info e opts samples s)))) =
       filter net_event (trace s) @ [NetGetObject (path_join (lit ''/files'') h)]"
proof -
  define s1 where "s1 = log_api_error code (emit [NetGetObject (path_join (lit ''/files'') h)] (get InfoQ (Hash h) s))"
  have s1: "pending (info_queue s1) = rest" "unfinished (info_queue s1) = unfinished (info_queue s)"
    "filter net_event (trace s1) = filter net_event (trace s) @ [NetGetObject (path_join (lit ''/files'') h)]"
    using q unfolding s1_def by (simp_all add: log_api_error_def get_def Let_def)
  have "length (pending (info_queue s1)) \<le> unfinished (info_queue s1)"
    using u q s1 by simp
  note d = drain_info_ok [OF this]
  define s2 where "s2 = snd (drain_info s1)"
  have dr: "drain_info s1 = (None, s2)"
    using d unfolding s2_def by (cases "drain_info s1") simp
  have s2: "pending (info_queue s2) = []"
    "unfinished (info_queue s2) = unfinished (info_queue s) - length rest"
    "filter net_event (trace s2) = filter net_event (trace s) @ [NetGetObject (path_join (lit ''/files'') h)]"
    using d s1 unfolding s2_def by simp_all
  have pos: "0 < unfinished (get_queue InfoQ s2)"
    using s2 u q by simp
  have item: "get_sample_info_item e opts (Hash h) samples (get InfoQ (Hash h) s) =
      (None, samples, snd (task_done InfoQ s2))"
    using err code dr task_done_ok [OF pos]
    by (simp add: get_sample_info_item_def Let_def s1_def [symmetric] del: drain_info.simps)
  show ?thesis
    using q item s2 u task_done_ok [OF pos]
    by (simp add: Let_def del: drain_info.simps)
qed


section \<open>Properties of the search iteration and of the behavior worker\<close>

text \<open>Once the iterator raises, the loop ends with an exception, and what the iterator
  would have yielded afterwards plays no role.\<close>

lemma iterate_stops_at_error:
  "iterate e opts f (map Inr objs @ Inl code # rest) s =
     iterate e opts f (map Inr objs @ [Inl code]) s \<and>
   fst (iterate e opts f (map Inr objs @ Inl code # rest) s) \<noteq> None"
proof (induction objs arbitrary: s)
  case Nil
  show ?case by simp
next
  case (Cons obj objs)
  have same: "iterate e opts f (map Inr objs @ Inl code # rest) s =
      iterate e opts f (map Inr objs @ [Inl code]) s" for s
    using Cons.IH [of s] by simp
  have stop: "fst (iterate e opts f (map Inr objs @ [Inl code]) s) \<noteq> None" for s
    using Cons.IH [of s] by auto
  show ?case
  proof (cases "otype obj \<notin> {(lit ''file''), (lit ''url''), (lit ''domain'')}")
    case True
    then show ?thesis using stop by (simp add: same)
  next
    case False
    obtain r s3 where d: "visit e opts f obj s = (r, s3)"
      by (cases "visit e opts f obj s")
    from False show ?thesis using d stop [of s3]
      by (cases r) (simp_all add: same)
  qed
qed

text \<open>An API error of the report fetch, whatever its code: the item is logged and marked
  done, and the loop goes on with the rest of the queue.\<close>

lemma behavior_api_error_continues:
  assumes q: "pending (behavior_queue s) = x # rest"
    and p: "p = path_join (reports_dir opts) (item_id x)"
    and u: "url = urljoin site_url ((lit ''files/'') @ item_id x @ (lit ''/behaviours''))"
    and miss: "\<not> isfile s p"
    and err: "get_json e url = JApiError code"
    and pos: "0 < unfinished (behavior_queue s)"
    and s1: "s1 = snd (task_done BehaviorQ (log ERROR (No_behavior_report (item_id x))
                 (emit [IsFile p, NetGetJson url] (get BehaviorQ x s))))"
  shows "get_behavior_report e opts s = get_behavior_report e opts s1 \<and>
         pending (behavior_queue s1) = rest \<and>
         unfinished (behavior_queue s1) = unfinished (behavior_queue s) - 1 \<and>
         fs s1 = fs s"
proof -
  have item: "get_behavior_report_item e opts x (get BehaviorQ x s) = (None, s1)"
    using p u miss err pos s1
    by (simp add: get_behavior_report_item_def execute_request_def task_done_def get_def
        isfile_def Let_def emit_def log_def)
  have "get_behavior_report e opts s = get_behavior_report e opts s1"
    using q item by (subst get_behavior_report.simps) simp
  moreover have "pending (behavior_queue s1) = rest"
    "unfinished (behavior_queue s1) = unfinished (behavior_queue s) - 1" "fs s1 = fs s"
    using q pos s1 by (simp_all add: task_done_def get_def Let_def)
  ultimately show ?thesis by simp
qed


section \<open>Fatal errors, stage by stage\<close>

lemma fatal_not_notfound: "fatal code \<Longrightarrow> code \<noteq> (lit ''NotFoundError'')"
  by (auto simp: fatal_def auth_codes_def quota_codes_def lit_def)

text \<open>
  C3 (as amended). A Fatal-class failure of the Remote Catalog ends the stage in the search
  iteration (the loop ends with the error, and no later result is visited) and in the info
  worker (the remaining items are taken off the queue and marked done without being looked
  up, and the worker returns). In a behavior worker an API error of the report fetch,
  Fatal-class or not, fails only the current item: the item is logged and marked done, and
  the worker goes on with the next item of the queue.
\<close>

theorem fatal_error_per_stage:
  "(fatal code \<longrightarrow>
      iterate e opts f (map Inr objs @ Inl code # later) s =
        iterate e opts f (map Inr objs @ [Inl code]) s \<and>
      fst (iterate e opts f (map Inr objs @ Inl code # later) s) \<noteq> None) \<and>
   (fatal code \<and> pending (info_queue si) = Hash h # rest \<and>
    get_object e (path_join (lit ''/files'') h) = Inl code \<and>
    length (pending (info_queue si)) \<le> unfinished (info_queue si) \<longrightarrow>
      fst (get_sample_info e opts samples si) = None \<and>
      pending (info_queue (snd (snd (get_sample_info e opts samples si)))) = [] \<and>
      unfinished (info_queue (snd (snd (get_sample_info e opts samples si)))) =
        unfinished (info_queue si) - length (pending (info_queue si)) \<and>
      filter net_event (trace (snd (snd (get_sample_info e opts samples si)))) =
        filter net_event (trace si) @ [NetGetObject (path_join (lit ''/files'') h)]) \<and>
   (pending (behavior_queue sb) = x # others \<and>
    \<not> isfile sb (path_join (reports_dir opts) (item_id x)) \<and>
    get_json e (urljoin site_url ((lit ''files/'') @ item_id x @ (lit ''/behaviours''))) = JApiError code \<and>
    0 < unfinished (behavior_queue sb) \<longrightarrow>
      (let s1 = snd (task_done BehaviorQ (log ERROR (No_behavior_report (item_id x))
                  (emit [IsFile (path_join (reports_dir opts) (item_id x)),
                         NetGetJson (urljoin site_url ((lit ''files/'') @ item_id x @ (lit ''/behaviours'')))]
                     (get BehaviorQ x sb))))
       in get_behavior_report e opts sb = get_behavior_report e opts s1 \<and>
          pending (behavior_queue s1) = others \<and>
          unfinished (behavior_queue s1) = unfinished (behavior_queue sb) - 1))"
proof (intro conjI impI)
  show "iterate e opts f (map Inr objs @ Inl code # later) s =
        iterate e opts f (map Inr objs @ [Inl code]) s"
    and "fst (iterate e opts f (map Inr objs @ Inl code # later) s) \<noteq> None"
    using iterate_stops_at_error [of e opts f objs code later s] by blast+
next
  assume a: "fatal code \<and> pending (info_queue si) = Hash h # rest \<and>
    get_object e (path_join (lit ''/files'') h) = Inl code \<and>
    length (pending (info_queue si)) \<le> unfinished (info_queue si)"
  then have "code \<noteq> (lit ''NotFoundError'')" using fatal_not_notfound by blast
  with a have d: "fst (get_sample_info e opts samples si) = None \<and>
     fst (snd (get_sample_info e opts samples si)) = samples \<and>
     pending (info_queue (snd (snd (get_sample_info e opts samples si)))) = [] \<and>
     unfinished (info_queue (snd (snd (get_sample_info e opts samples si)))) =
       unfinished (info_queue si) - length (pending (info_queue si)) \<and>
     filter net_event (trace (snd (snd (get_sample_info e opts samples si)))) =
       filter net_event (trace si) @ [NetGetObject (path_join (lit ''/files'') h)]"
    by (intro get_sample_info_error_drains) blast+
  from d show "fst (get_sample_info e opts samples si) = None" by blast
  from d show "pending (info_queue (snd (snd (get_sample_info e opts samples si)))) = []" by blast
  from d show "unfinished (info_queue (snd (snd (get_sample_info e opts samples si)))) =
        unfinished (info_queue si) - length (pending (info_queue si))" by blast
  from d show "filter net_event (trace (snd (snd (get_sample_info e opts samples si)))) =
        filter net_event (trace si) @ [NetGetObject (path_join (lit ''/files'') h)]" by blast
next
  assume a: "pending (behavior_queue sb) = x # others \<and>
    \<not> isfile sb (path_join (reports_dir opts) (item_id x)) \<and>
    get_json e (urljoin site_url ((lit ''files/'') @ item_id x @ (lit ''/behaviours''))) = JApiError code \<and>
    0 < unfinished (behavior_queue sb)"
  have "get_behavior_report e opts sb = get_behavior_report e opts s1 \<and>
         pending (behavior_queue s1) = others \<and>
         unfinished (behavior_queue s1) = unfinished (behavior_queue sb) - 1 \<and>
         fs s1 = fs sb"
    if "s1 = snd (task_done BehaviorQ (log ERROR (No_behavior_report (item_id x))
                  (emit [IsFile (path_join (reports_dir opts) (item_id x)),
                         NetGetJson (urljoin site_url ((lit ''files/'') @ item_id x @ (lit ''/behaviours'')))]
                     (get BehaviorQ x sb))))" for s1
    using a that by (intro behavior_api_error_continues) blast+
  then show "let s1 = snd (task_done BehaviorQ (log ERROR (No_behavior_report (item_id x))
                  (emit [IsFile (path_join (reports_dir opts) (item_id x)),
                         NetGetJson (urljoin site_url ((lit ''files/'') @ item_id x @ (lit ''/behaviours'')))]
                     (get BehaviorQ x sb))))
       in get_behavior_report e opts sb = get_behavior_report e opts s1 \<and>
          pending (behavior_queue s1) = others \<and>
          unfinished (behavior_queue s1) = unfinished (behavior_queue sb) - 1"
    unfolding Let_def by blast
qed

theorem fatal_error_per_stage_witness:
  "fatal (lit ''QuotaExceededError'') \<and>
   iterate quota_env test_opts (lit ''out/artifacts.txt'')
       [Inl (lit ''QuotaExceededError''), Inr \<lparr>otype = (lit ''file''), oid = (lit ''a''), ourl = []\<rparr>]
       (init_state Map.empty) =
     (Some (APIError (lit ''QuotaExceededError'')), init_state Map.empty) \<and>
   fst (get_sample_info quota_env test_opts []
          (put InfoQ (Hash (lit ''b'')) (put InfoQ (Hash (lit ''a'')) (init_state Map.empty)))) = None \<and>
   unfinished (info_queue (snd (snd (get_sample_info quota_env test_opts []
          (put InfoQ (Hash (lit ''b'')) (put InfoQ (Hash (lit ''a'')) (init_state Map.empty))))))) = 0 \<and>
   filter net_event (trace (snd (snd (get_sample_info quota_env test_opts []
          (put InfoQ (Hash (lit ''b'')) (put InfoQ (Hash (lit ''a'')) (init_state Map.empty))))))) =
     [NetGetObject (lit ''/files/a'')] \<and>
   pending (behavior_queue (snd (task_done BehaviorQ (log ERROR (No_behavior_report (lit ''a''))
       (emit [IsFile (lit ''reports/a''), NetGetJson (lit ''https://virustotal.com/api/v3/files/a/behaviours'')]
          (get BehaviorQ (Hash (lit ''a''))
             (put BehaviorQ (Hash (lit ''b'')) (put BehaviorQ (Hash (lit ''a'')) (init_state Map.empty))))))))) =
     [Hash (lit ''b'')]"
  using fatal_error_per_stage [where code = "(lit ''QuotaExceededError'')" and e = quota_env
      and opts = test_opts and f = "(lit ''out/artifacts.txt'')" and objs = "[]"
      and later = "[Inr \<lparr>otype = (lit ''file''), oid = (lit ''a''), ourl = []\<rparr>]"
      and s = "init_state Map.empty"
      and si = "put InfoQ (Hash (lit ''b'')) (put InfoQ (Hash (lit ''a'')) (init_state Map.empty))"
      and h = "(lit ''a'')" and rest = "[Hash (lit ''b'')]" and samples = "[]"
      and sb = "put BehaviorQ (Hash (lit ''b'')) (put BehaviorQ (Hash (lit ''a'')) (init_state Map.empty))"
      and x = "Hash (lit ''a'')" and others = "[Hash (lit ''b'')]"]
  by (simp add: fatal_def quota_codes_def auth_codes_def quota_env_def test_env_def test_opts_def lit_def
      put_def init_state_def empty_queue_def isfile_def path_join_def urljoin_def site_url_def
      Let_def
      del: get_behavior_report.simps get_sample_info.simps)

text \<open>
  C3 as stated fails for the behavior worker: with two items queued and a remote side that
  answers every report fetch with a quota error, the worker fetches for the second item
  after the first fetch has failed, and returns normally.
\<close>

theorem fatal_in_behavior_worker_counterexample:
  "fatal (lit ''QuotaExceededError'') \<and>
   fst (get_behavior_report quota_env test_opts
          (put BehaviorQ (Hash (lit ''b'')) (put BehaviorQ (Hash (lit ''a'')) (init_state Map.empty)))) = None \<and>
   filter net_event (trace (snd (get_behavior_report quota_env test_opts
          (put BehaviorQ (Hash (lit ''b'')) (put BehaviorQ (Hash (lit ''a'')) (init_state Map.empty)))))) =
     [NetGetJson (lit ''https://virustotal.com/api/v3/files/a/behaviours''),
      NetGetJson (lit ''https://virustotal.com/api/v3/files/b/behaviours'')]"
  by (simp add: fatal_def quota_codes_def auth_codes_def quota_env_def test_env_def test_opts_def lit_def
      put_def get_def init_state_def empty_queue_def emit_def log_def Let_def
      get_behavior_report_item_def execute_request_def task_done_def isfile_def path_join_def
      urljoin_def site_url_def)



section \<open>Marking items done\<close>

text \<open>
  C1. Every item taken off a queue is to be marked done exactly once on every path. The
  info worker misses this on the not-found path: the handler runs \<open>continue\<close> before the
  \<open>task_done\<close> at the end of the loop body, whereas the sample and the behavior worker
  call \<open>task_done\<close> before their \<open>continue\<close>. With one hash in the file and a remote
  side that answers not-found, the worker returns with the counter of the Info queue still
  at 1 and no \<open>TaskDone\<close> in the trace, and \<open>download_samples\<close> waits for ever in
  \<open>info_queue.join()\<close>.
\<close>

theorem not_found_item_never_marked_done:
  "get_sample_info test_env test_opts []
       (put InfoQ (Hash (lit ''d41d8cd98f00b204e9800998ecf8427e'')) (init_state Map.empty)) =
     (None, [],
      \<lparr>fs = Map.empty,
       info_queue = \<lparr>pending = [], unfinished = 1\<rparr>,
       sample_queue = empty_queue, behavior_queue = empty_queue, created = [],
       trace = [Put InfoQ (Hash (lit ''d41d8cd98f00b204e9800998ecf8427e'')),
                Get InfoQ (Hash (lit ''d41d8cd98f00b204e9800998ecf8427e'')),
                NetGetObject (lit ''/files/d41d8cd98f00b204e9800998ecf8427e''),
                Log WARNING (Sample_not_found (lit ''d41d8cd98f00b204e9800998ecf8427e''))]\<rparr>) \<and>
   fst (download_samples test_env test_opts [(lit ''d41d8cd98f00b204e9800998ecf8427e'')]
          (init_state Map.empty)) = Blocked InfoQ"
  by (simp add: test_env_def test_opts_def lit_def put_def get_def init_state_def empty_queue_def
      emit_def log_def Let_def get_sample_info_item_def path_join_def download_samples_def
      create_task_def strip_def strip_char_def md5_def re_match_def hexchar_def join_returns_def)

section \<open>Disk check and network fetch\<close>

lemma set_queue_simps [simp]:
  "fs (set_queue n q s) = fs s" "trace (set_queue n q s) = trace s"
  "created (set_queue n q s) = created s"
  by (cases n; simp)+

lemma task_done_trace: "\<exists>evs. trace (snd (task_done n s)) = trace s @ evs"
  by (simp add: task_done_def Let_def)

lemma log_api_error_trace: "\<exists>m. trace (log_api_error code s) = trace s @ [Log ERROR m]"
  by (simp add: log_api_error_def)

lemma display_information_trace:
  "\<exists>evs. trace (snd (display_information e a p s)) = trace s @ evs"
  by (simp add: display_information_def Let_def)

lemma drain_info_trace: "\<exists>evs. trace (snd (drain_info s)) = trace s @ evs"
proof (induction s rule: drain_info.induct)
  case (1 s)
  show ?case
  proof (cases "pending (info_queue s)")
    case Nil
    then show ?thesis by simp
  next
    case (Cons x rest)
    obtain r s' where td: "task_done InfoQ (get InfoQ x s) = (r, s')"
      by (cases "task_done InfoQ (get InfoQ x s)")
    obtain evs where e1: "trace s' = trace s @ evs"
      using task_done_trace [of InfoQ "get InfoQ x s"] td by auto
    show ?thesis
    proof (cases r)
      case None
      from "1.IH" [OF Cons td [symmetric] None] obtain evs' where
        "trace (snd (drain_info s')) = trace s' @ evs'" by blast
      with e1 Cons td None show ?thesis by simp
    next
      case (Some err)
      with e1 Cons td show ?thesis by simp
    qed
  qed
qed

lemma take_first_event:
  "trace s' = trace s1 @ evs \<Longrightarrow> trace s1 = trace s @ [ev] \<Longrightarrow>
   take (Suc (length (trace s))) (trace s') = trace s @ [ev]"
  by simp

lemma get_sample_info_item_first:
  "take (Suc (length (trace s))) (trace (snd (snd (get_sample_info_item e opts (Hash h) samples s)))) =
     trace s @ [NetGetObject (path_join (lit ''/files'') h)]"
proof -
  define s1 where "s1 = emit [NetGetObject (path_join (lit ''/files'') h)] s"
  have s1: "trace s1 = trace s @ [NetGetObject (path_join (lit ''/files'') h)]"
    by (simp add: s1_def)
  have "\<exists>evs. trace (snd (snd (get_sample_info_item e opts (Hash h) samples s))) = trace s1 @ evs"
  proof (cases "get_object e (path_join (lit ''/files'') h)")
    case (Inr result)
    obtain r2 s2 where d: "display_information e result (path_join (info_dir opts) h) s1 = (r2, s2)"
      by (cases "display_information e result (path_join (info_dir opts) h) s1")
    obtain evs where e2: "trace s2 = trace s1 @ evs"
      using display_information_trace [of e result "path_join (info_dir opts) h" s1] d by auto
    obtain evs' where e3: "trace (snd (task_done InfoQ s2)) = trace s2 @ evs'"
      using task_done_trace by blast
    show ?thesis using Inr d e2 e3
      by (cases r2; cases "task_done InfoQ s2")
        (simp_all add: get_sample_info_item_def Let_def s1_def [symmetric])
  next
    case (Inl code)
    show ?thesis
    proof (cases "code = (lit ''NotFoundError'')")
      case True
      with Inl show ?thesis
        by (simp add: get_sample_info_item_def Let_def s1_def [symmetric])
    next
      case False
      obtain r2 s2 where d: "drain_info (log_api_error code s1) = (r2, s2)"
        by (cases "drain_info (log_api_error code s1)")
      obtain evs0 where "trace s2 = trace (log_api_error code s1) @ evs0"
        using drain_info_trace [of "log_api_error code s1"] d by (auto simp del: drain_info.simps)
      moreover obtain m where "trace (log_api_error code s1) = trace s1 @ [Log ERROR m]"
        using log_api_error_trace by blast
      ultimately have e2: "trace s2 = trace s1 @ Log ERROR m # evs0"
        by simp
      obtain evs' where e3: "trace (snd (task_done InfoQ s2)) = trace s2 @ evs'"
        using task_done_trace by blast
      show ?thesis using Inl False d e2 e3
        by (cases r2; cases "task_done InfoQ s2")
          (simp_all add: get_sample_info_item_def Let_def s1_def [symmetric]
            del: drain_info.simps)
    qed
  qed
  then obtain evs where "trace (snd (snd (get_sample_info_item e opts (Hash h) samples s))) = trace s1 @ evs"
    by blast
  from take_first_event [OF this s1] show ?thesis .
qed

lemma get_sample_item_first:
  "take (Suc (length (trace s))) (trace (snd (get_sample_item e opts x s))) =
     trace s @ [IsFile (path_join (samples_dir opts) (item_id x))]"
  by (simp add: get_sample_item_def task_done_def Let_def split: dl.splits)

lemma get_sample_item_hit_net:
  "isfile s (path_join (samples_dir opts) (item_id x)) \<Longrightarrow>
   filter net_event (trace (snd (get_sample_item e opts x s))) = filter net_event (trace s)"
  by (simp add: get_sample_item_def task_done_def Let_def isfile_def)

lemma get_behavior_report_item_first:
  "take (Suc (length (trace s))) (trace (snd (get_behavior_report_item e opts x s))) =
     trace s @ [IsFile (path_join (reports_dir opts) (item_id x))]"
  by (simp add: get_behavior_report_item_def execute_request_def finish_report_def
      task_done_def Let_def split: json_result.splits option.splits node.splits)

lemma get_behavior_report_item_hit_net:
  "isfile s (path_join (reports_dir opts) (item_id x)) \<Longrightarrow>
   filter net_event (trace (snd (get_behavior_report_item e opts x s))) = filter net_event (trace s)"
  by (simp add: get_behavior_report_item_def finish_report_def
      task_done_def Let_def isfile_def split: option.splits node.splits)


text \<open>
  C7 (as amended). For every item processed by a sample worker or a behavior worker, the
  existence check on \<open>{cache_dir}/{id}\<close> is the first thing done for the item, before any
  network fetch, and no network call is issued for an item whose target file exists. The
  info worker issues its lookup first, for every item, whether or not a summary of the
  identifier is on disk.
\<close>

theorem cache_check_before_fetch:
  "take (Suc (length (trace s))) (trace (snd (get_sample_item e opts x s))) =
     trace s @ [IsFile (path_join (samples_dir opts) (item_id x))] \<and>
   (isfile s (path_join (samples_dir opts) (item_id x)) \<longrightarrow>
      filter net_event (trace (snd (get_sample_item e opts x s))) = filter net_event (trace s)) \<and>
   take (Suc (length (trace s))) (trace (snd (get_behavior_report_item e opts x s))) =
     trace s @ [IsFile (path_join (reports_dir opts) (item_id x))] \<and>
   (isfile s (path_join (reports_dir opts) (item_id x)) \<longrightarrow>
      filter net_event (trace (snd (get_behavior_report_item e opts x s))) =
        filter net_event (trace s)) \<and>
   take (Suc (length (trace s)))
       (trace (snd (snd (get_sample_info_item e opts (Hash h) samples s)))) =
     trace s @ [NetGetObject (path_join (lit ''/files'') h)]"
  using get_sample_item_first [of s e opts x] get_sample_item_hit_net [of s opts x e]
    get_behavior_report_item_first [of s e opts x]
    get_behavior_report_item_hit_net [of s opts x e]
    get_sample_info_item_first [of s e opts h samples]
  by blast

theorem cache_check_before_fetch_witness:
  "isfile (init_state [(lit ''samples/abc'') \<mapsto> RegFile (lit ''MZ''), (lit ''reports/abc'') \<mapsto> RegFile (lit ''{}'')])
     (lit ''samples/abc'') \<and>
   isfile (init_state [(lit ''samples/abc'') \<mapsto> RegFile (lit ''MZ''), (lit ''reports/abc'') \<mapsto> RegFile (lit ''{}'')])
     (lit ''reports/abc'') \<and>
   filter net_event (trace (snd (get_sample_item test_env test_opts (Hash (lit ''abc''))
     (init_state [(lit ''samples/abc'') \<mapsto> RegFile (lit ''MZ''), (lit ''reports/abc'') \<mapsto> RegFile (lit ''{}'')])))) = [] \<and>
   filter net_event (trace (snd (get_behavior_report_item test_env test_opts (Hash (lit ''abc''))
     (init_state [(lit ''samples/abc'') \<mapsto> RegFile (lit ''MZ''), (lit ''reports/abc'') \<mapsto> RegFile (lit ''{}'')])))) = [] \<and>
   take 1 (trace (snd (snd (get_sample_info_item test_env test_opts (Hash (lit ''abc'')) []
     (init_state [(lit ''samples/abc'') \<mapsto> RegFile (lit ''MZ''), (lit ''reports/abc'') \<mapsto> RegFile (lit ''{}'')]))))) =
     [NetGetObject (lit ''/files/abc'')]"
  using cache_check_before_fetch [of
      "init_state [(lit ''samples/abc'') \<mapsto> RegFile (lit ''MZ''), (lit ''reports/abc'') \<mapsto> RegFile (lit ''{}'')]"
      test_env test_opts "Hash (lit ''abc'')" "(lit ''abc'')" "[]"]
  by (simp add: test_opts_def lit_def init_state_def isfile_def path_join_def)

text \<open>
  C7 as stated fails for the info role: with the summary \<open>info/abc\<close> on disk, the info
  worker still calls the remote API for \<open>abc\<close>, and tests the existence of the file only
  afterwards, inside \<open>display_information\<close>.
\<close>

theorem info_lookup_ignores_cache_counterexample:
  "isfile (put InfoQ (Hash (lit ''abc'')) (init_state [(lit ''info/abc'') \<mapsto> RegFile (lit ''old'')])) (lit ''info/abc'') \<and>
   trace (snd (snd (get_sample_info found_env test_opts []
       (put InfoQ (Hash (lit ''abc'')) (init_state [(lit ''info/abc'') \<mapsto> RegFile (lit ''old'')]))))) =
     [Put InfoQ (Hash (lit ''abc'')), Get InfoQ (Hash (lit ''abc'')), NetGetObject (lit ''/files/abc''),
      Exists (lit ''info/abc''), Exists (lit ''info/abc''), Log DEBUG (Summary_exists (lit ''abc'')),
      TaskDone InfoQ]"
  by (simp add: found_env_def test_env_def test_opts_def lit_def put_def get_def init_state_def
      empty_queue_def emit_def log_def Let_def get_sample_info_item_def path_join_def
      display_information_def exists_path_def isfile_def task_done_def)


section \<open>Tasks created and cancelled by the drivers\<close>

lemma quiet_refl [simp]: "quiet s s"
  by (simp add: quiet_def)

lemma quiet_trans: "quiet s s' \<Longrightarrow> quiet s' s'' \<Longrightarrow> quiet s s''"
  by (auto simp: quiet_def)

lemma quiet_basic [simp]:
  "quiet s (log l m s)" "quiet s (write_file p c s)" "quiet s (append_file p c s)"
  "quiet s (put n x s)" "quiet s (get n x s)" "quiet s (snd (task_done n s))"
  "quiet s (log_api_error code s)"
  by (auto simp: quiet_def append_file_def put_def get_def task_done_def log_api_error_def
      Let_def split: option.splits node.splits)

lemma quiet_display_information: "quiet s (snd (display_information e a p s))"
  by (auto simp: display_information_def quiet_def Let_def)

lemma quiet_visit: "quiet s (snd (visit e opts f obj s))"
  by (auto simp: visit_def display_information_def quiet_def Let_def append_file_def put_def
      split: option.splits node.splits)

lemma quiet_iterate: "quiet s (snd (iterate e opts f it s))"
proof (induction it arbitrary: s)
  case Nil
  show ?case by simp
next
  case (Cons r it)
  show ?case
  proof (cases r)
    case (Inl code)
    then show ?thesis by simp
  next
    case (Inr obj)
    show ?thesis
    proof (cases "otype obj \<notin> {(lit ''file''), (lit ''url''), (lit ''domain'')}")
      case True
      with Inr show ?thesis
        using quiet_trans [OF quiet_basic(1) Cons.IH] by simp
    next
      case False
      obtain r' s3 where v: "visit e opts f obj s = (r', s3)"
        by (cases "visit e opts f obj s")
      have "quiet s s3" using quiet_visit [of s e opts f obj] v by simp
      with False Inr v show ?thesis
        using quiet_trans [OF _ Cons.IH [of s3]] by (cases r') simp_all
    qed
  qed
qed

lemma iterate_exn:
  "fst (iterate e opts f it s) = Some err \<Longrightarrow>
   err = IOError \<or> (\<exists>c. err = APIError c \<and> Inl c \<in> set it)"
proof (induction it arbitrary: s)
  case Nil
  then show ?case by simp
next
  case (Cons r it)
  show ?case
  proof (cases r)
    case (Inl c)
    with Cons.prems show ?thesis by auto
  next
    case (Inr obj)
    show ?thesis
    proof (cases "otype obj \<notin> {(lit ''file''), (lit ''url''), (lit ''domain'')}")
      case True
      with Inr Cons.prems Cons.IH show ?thesis by auto
    next
      case False
      obtain r' s3 where v: "visit e opts f obj s = (r', s3)"
        by (cases "visit e opts f obj s")
      have "r' = None \<or> r' = Some IOError"
        using v by (auto simp: visit_def display_information_def Let_def split: if_splits)
      with False Inr v Cons.prems Cons.IH [of s3] show ?thesis by auto
    qed
  qed
qed

lemma iterate_raises:
  "Inl code \<in> set it \<Longrightarrow> fst (iterate e opts f it s) \<noteq> None"
proof (induction it arbitrary: s)
  case Nil
  then show ?case by simp
next
  case (Cons r it)
  show ?case
  proof (cases r)
    case (Inl c)
    then show ?thesis by simp
  next
    case (Inr obj)
    with Cons.prems have "Inl code \<in> set it" by auto
    note ih = Cons.IH [OF this]
    show ?thesis
    proof (cases "otype obj \<notin> {(lit ''file''), (lit ''url''), (lit ''domain'')}")
      case True
      with Inr ih show ?thesis by simp
    next
      case False
      obtain r' s3 where v: "visit e opts f obj s = (r', s3)"
        by (cases "visit e opts f obj s")
      with False Inr ih [of s3] show ?thesis by (cases r') simp_all
    qed
  qed
qed

lemma quiet_get_sample_item: "quiet s (snd (get_sample_item e opts x s))"
  by (auto simp: get_sample_item_def quiet_def task_done_def Let_def split: dl.splits)

lemma quiet_get_behavior_report_item: "quiet s (snd (get_behavior_report_item e opts x s))"
  by (auto simp: get_behavior_report_item_def execute_request_def finish_report_def
      quiet_def task_done_def Let_def
      split: json_result.splits option.splits node.splits)

lemma quiet_get_sample: "quiet s (snd (get_sample e opts s))"
proof (induction e opts s rule: get_sample.induct)
  case (1 e opts s)
  show ?case
  proof (cases "pending (sample_queue s)")
    case Nil
    then show ?thesis by simp
  next
    case (Cons x rest)
    obtain r s' where it: "get_sample_item e opts x (get SampleQ x s) = (r, s')"
      by (cases "get_sample_item e opts x (get SampleQ x s)")
    have q: "quiet s s'"
      using quiet_trans [OF quiet_basic(5) [of s SampleQ x]
          quiet_get_sample_item [of "get SampleQ x s" e opts x]] it
      by simp
    show ?thesis
    proof (cases r)
      case None
      from quiet_trans [OF q "1.IH" [OF Cons it [symmetric] None]] Cons it None
      show ?thesis by simp
    next
      case (Some err)
      with q Cons it show ?thesis by simp
    qed
  qed
qed

lemma quiet_get_behavior_report: "quiet s (snd (get_behavior_report e opts s))"
proof (induction e opts s rule: get_behavior_report.induct)
  case (1 e opts s)
  show ?case
  proof (cases "pending (behavior_queue s)")
    case Nil
    then show ?thesis by simp
  next
    case (Cons x rest)
    obtain r s' where it: "get_behavior_report_item e opts x (get BehaviorQ x s) = (r, s')"
      by (cases "get_behavior_report_item e opts x (get BehaviorQ x s)")
    have q: "quiet s s'"
      using quiet_trans [OF quiet_basic(5) [of s BehaviorQ x]
          quiet_get_behavior_report_item [of "get BehaviorQ x s" e opts x]] it
      by simp
    show ?thesis
    proof (cases r)
      case None
      from quiet_trans [OF q "1.IH" [OF Cons it [symmetric] None]] Cons it None
      show ?thesis by simp
    next
      case (Some err)
      with q Cons it show ?thesis by simp
    qed
  qed
qed

lemma quiet_gather: "quiet s (snd (gather e opts tasks s))"
proof (induction tasks arbitrary: s)
  case Nil
  show ?case by simp
next
  case (Cons t tasks)
  obtain h r where t: "t = (h, r)" by (cases t)
  obtain res s' where w: "run_worker e opts r s = (res, s')"
    by (cases "run_worker e opts r s")
  have q: "quiet s s'"
    using w quiet_get_sample [of s e opts] quiet_get_behavior_report [of s e opts]
    by (cases r) simp_all
  show ?case
    using t w q quiet_trans [OF q Cons.IH [of s']] by (cases res) simp_all
qed


lemma spawned_refl: "spawned tasks s tasks s"
  by (simp add: spawned_def)

lemma upt_join: "i \<le> j \<Longrightarrow> j \<le> k \<Longrightarrow> [i..<j] @ [j..<k] = [i..<k]"
  using upt_add_eq_append [of i j "k - j"] by simp

lemma spawned_trans:
  "spawned tasks s tasks' s' \<Longrightarrow> spawned tasks' s' tasks'' s'' \<Longrightarrow> spawned tasks s tasks'' s''"
  unfolding spawned_def
  by (elim conjE exE, intro conjI) (auto simp: upt_join)

lemma spawned_create:
  "create_task (role_kind r) s = (h, s') \<Longrightarrow> spawned tasks s (tasks @ [(h, r)]) s'"
  by (auto simp: spawned_def create_task_def)

lemma spawned_spawn_workers:
  "spawn_workers opts n tasks s = (tasks', s') \<Longrightarrow> spawned tasks s tasks' s'"
proof (induction n arbitrary: tasks s)
  case 0
  then show ?case by (simp add: spawned_refl)
next
  case (Suc n)
  obtain tasks1 s1 where b: "(if dl_behavior opts then
               (let (h, s') = create_task BehaviorWorker s in (tasks @ [(h, Behavior)], s'))
             else (tasks, s)) = (tasks1, s1)"
    by (rule prod.exhaust)
  obtain tasks2 s2 where c: "(if dl_samples opts then
               (let (h, s') = create_task SampleWorker s1 in (tasks1 @ [(h, Sample)], s'))
             else (tasks1, s1)) = (tasks2, s2)"
    by (rule prod.exhaust)
  have 1: "spawned tasks s tasks1 s1"
    using b spawned_create [of Behavior s _ _ tasks]
    by (auto simp: spawned_refl split: if_splits prod.splits)
  have 2: "spawned tasks1 s1 tasks2 s2"
    using c spawned_create [of Sample s1 _ _ tasks1]
    by (auto simp: spawned_refl split: if_splits prod.splits)
  have "spawn_workers opts n tasks2 s2 = (tasks', s')"
    using Suc.prems b c by simp
  from spawned_trans [OF spawned_trans [OF 1 2] Suc.IH [OF this]] show ?case .
qed


lemma run_pools_facts:
  assumes "run_pools e opts s = (r, s')"
  shows "(\<exists>ks. created s' = created s @ ks) \<and>
     (\<exists>evs. trace s' = trace s @ evs \<and> (\<forall>h. Cancel h \<in> set evs \<longrightarrow> length (created s) \<le> h)) \<and>
     (r = Returned \<longrightarrow>
        (\<exists>pre. trace s' = pre @ [Join BehaviorQ, Join SampleQ] @
                 map Cancel [length (created s)..<length (created s')]))"
proof -
  obtain tasks s1 where sp: "spawn_workers opts (workers opts) [] s = (tasks, s1)"
    by (cases "spawn_workers opts (workers opts) [] s")
  obtain g s2 where ga: "gather e opts tasks s1 = (g, s2)"
    by (cases "gather e opts tasks s1")
  from spawned_spawn_workers [OF sp] obtain ks evs1 where
    c1: "created s1 = created s @ ks"
    and h: "map fst tasks = [length (created s)..<length (created s1)]"
    and t1: "trace s1 = trace s @ evs1" "\<forall>h. Cancel h \<notin> set evs1"
    by (auto simp: spawned_def)
  from quiet_gather [of s1 e opts tasks] ga obtain evs2 where
    c2: "created s2 = created s1"
    and t2: "trace s2 = trace s1 @ evs2" "\<forall>h. Cancel h \<notin> set evs2"
    by (auto simp: quiet_def)
  show ?thesis
  proof (cases g)
    case (Some err)
    with assms sp ga c1 c2 t1 t2 show ?thesis
      by (auto simp: run_pools_def)
  next
    case None
    with assms sp ga c1 c2 t1 t2 h show ?thesis
      by (auto simp: run_pools_def Let_def cancel_all_def join_returns_def split: if_splits)
  qed
qed

lemma search_facts:
  assumes "search e opts s = (r, s')"
  shows "(\<exists>ks. created s' = created s @ Heartbeat # ks \<and>
            (Inl code \<in> set (iterator e (query opts) (limit opts)) \<longrightarrow>
               ks = [] \<and> (r = Returned \<or> r = Raised IOError))) \<and>
     (\<exists>evs. trace s' = trace s @ Log DEFAULT (Running_query (query opts)) # CreateTask Heartbeat # evs \<and>
            (\<forall>h. Cancel h \<in> set evs \<longrightarrow> length (created s) < h)) \<and>
     (r = Returned \<and> (\<forall>c. Inl c \<notin> set (iterator e (query opts) (limit opts))) \<longrightarrow>
        (\<exists>pre. trace s' = pre @ [Join BehaviorQ, Join SampleQ] @
                 map Cancel [Suc (length (created s))..<length (created s')]))"
proof -
  define alog where "alog = path_join (download_dir opts) (artifacts opts)"
  define s2 where "s2 = snd (create_task Heartbeat (log DEFAULT (Running_query (query opts)) s))"
  have s2: "created s2 = created s @ [Heartbeat]"
    "trace s2 = trace s @ [Log DEFAULT (Running_query (query opts)), CreateTask Heartbeat]"
    by (simp_all add: s2_def create_task_def)
  show ?thesis
  proof (cases "cannot_open e s2 alog")
    case True
    with assms s2 show ?thesis
      by (auto simp: search_def create_task_def Let_def s2_def alog_def)
  next
    case False
    define it where "it = iterator e (query opts) (limit opts)"
    obtain i s3 where i: "iterate e opts alog it (write_file alog [] s2) = (i, s3)"
      by (cases "iterate e opts alog it (write_file alog [] s2)")
    from quiet_iterate [of "write_file alog [] s2" e opts alog it] i obtain evs3 where
      c3: "created s3 = created s2" and t3: "trace s3 = trace s2 @ evs3" "\<forall>h. Cancel h \<notin> set evs3"
      by (auto simp: quiet_def)
    have unfold: "search e opts s =
        (case (i, s3) of
           (None, s3) \<Rightarrow> run_pools e opts s3
         | (Some (APIError code), s3) \<Rightarrow> (Returned, log_api_error code s3)
         | (Some err, s3) \<Rightarrow> (Raised err, s3))"
      using False i
      by (simp add: search_def create_task_def Let_def s2_def alog_def it_def)
    show ?thesis
    proof (cases i)
      case None
      with unfold assms have rp: "run_pools e opts s3 = (r, s')" by simp
      have noerr: "Inl code \<notin> set it"
        using iterate_raises [of code it e opts alog "write_file alog [] s2"] i None by auto
      from run_pools_facts [OF rp] obtain ks evs where
        c4: "created s' = created s3 @ ks"
        and t4: "trace s' = trace s3 @ evs" "\<forall>h. Cancel h \<in> set evs \<longrightarrow> length (created s3) \<le> h"
        and ret: "r = Returned \<longrightarrow>
          (\<exists>pre. trace s' = pre @ [Join BehaviorQ, Join SampleQ] @
                   map Cancel [length (created s3)..<length (created s')])"
        by blast
      have len: "length (created s3) = Suc (length (created s))"
        using c3 s2 by simp
      have 1: "\<exists>ks. created s' = created s @ Heartbeat # ks \<and>
            (Inl code \<in> set (iterator e (query opts) (limit opts)) \<longrightarrow>
               ks = [] \<and> (r = Returned \<or> r = Raised IOError))"
        using c4 c3 s2 noerr by (simp add: it_def)
      have 2: "\<exists>evs. trace s' = trace s @ Log DEFAULT (Running_query (query opts)) #
                 CreateTask Heartbeat # evs \<and>
            (\<forall>h. Cancel h \<in> set evs \<longrightarrow> length (created s) < h)"
      proof (intro exI conjI allI impI)
        show "trace s' = trace s @ Log DEFAULT (Running_query (query opts)) #
                 CreateTask Heartbeat # (evs3 @ evs)"
          using t4 t3 s2 by simp
        fix h assume "Cancel h \<in> set (evs3 @ evs)"
        then show "length (created s) < h"
          using t3(2) t4(2) len by auto
      qed
      have 3: "r = Returned \<and> (\<forall>c. Inl c \<notin> set (iterator e (query opts) (limit opts))) \<longrightarrow>
        (\<exists>pre. trace s' = pre @ [Join BehaviorQ, Join SampleQ] @
                 map Cancel [Suc (length (created s))..<length (created s')])"
        using ret unfolding len by blast
      from 1 2 3 show ?thesis by blast
    next
      case (Some err)
      from iterate_exn [of e opts alog it "write_file alog [] s2" err] i Some
      have k: "err = IOError \<or> (\<exists>c. err = APIError c \<and> Inl c \<in> set it)" by simp
      then show ?thesis
      proof
        assume "err = IOError"
        with unfold assms Some c3 s2 t3 show ?thesis
          by (auto simp: it_def)
      next
        assume "\<exists>c. err = APIError c \<and> Inl c \<in> set it"
        then obtain c where c: "err = APIError c" "Inl c \<in> set it" by blast
        obtain m where "trace (log_api_error c s3) = trace s3 @ [Log ERROR m]"
          using log_api_error_trace by blast
        moreover have "created (log_api_error c s3) = created s3"
          by (simp add: log_api_error_def)
        ultimately show ?thesis
          using unfold assms Some c c3 s2 t3 by (auto simp: it_def)
      qed
    qed
  qed
qed

text \<open>The definitions to unfold when a whole run is evaluated on a concrete input.\<close>

lemmas run_defs = test_env_def test_opts_def lit_def init_state_def empty_queue_def
  search_def run_pools_def create_task_def visit_def display_information_def
  get_sample_item_def get_behavior_report_item_def execute_request_def finish_report_def
  task_done_def put_def get_def emit_def log_def write_file_def append_file_def
  cancel_all_def join_returns_def log_api_error_def auth_codes_def quota_codes_def
  isfile_def exists_path_def cannot_open_def path_join_def urljoin_def site_url_def Let_def



text \<open>
  C6 (as amended). The Search Driver creates the heartbeat task at its start, before the
  result iteration, on every path (also when the iteration then fails). When the
  iteration raised no API error and the driver returns, it has waited for both queues and
  then cancelled every worker task it created, and only those: on no path does the driver
  cancel the heartbeat task, which is still there when the stage is complete.
\<close>

theorem heartbeat_lifecycle:
  "take (length (trace s) + 2) (trace (snd (search e opts s))) =
     trace s @ [Log DEFAULT (Running_query (query opts)), CreateTask Heartbeat] \<and>
   length (created s) < length (created (snd (search e opts s))) \<and>
   created (snd (search e opts s)) ! length (created s) = Heartbeat \<and>
   Cancel (length (created s)) \<notin> set (drop (length (trace s)) (trace (snd (search e opts s)))) \<and>
   (fst (search e opts s) = Returned \<and>
    (\<forall>c. Inl c \<notin> set (iterator e (query opts) (limit opts))) \<longrightarrow>
      (\<exists>pre. trace (snd (search e opts s)) =
         pre @ [Join BehaviorQ, Join SampleQ] @
         map Cancel [Suc (length (created s))..<length (created (snd (search e opts s)))]))"
proof -
  obtain r s' where r: "search e opts s = (r, s')" by (cases "search e opts s")
  from search_facts [OF r, where code = "[]"] obtain ks evs where
    c: "created s' = created s @ Heartbeat # ks"
    and t: "trace s' = trace s @ Log DEFAULT (Running_query (query opts)) # CreateTask Heartbeat # evs"
    and n: "\<forall>h. Cancel h \<in> set evs \<longrightarrow> length (created s) < h"
    and j: "r = Returned \<and> (\<forall>c. Inl c \<notin> set (iterator e (query opts) (limit opts))) \<longrightarrow>
        (\<exists>pre. trace s' = pre @ [Join BehaviorQ, Join SampleQ] @
                 map Cancel [Suc (length (created s))..<length (created s')])"
    by blast
  have "Cancel (length (created s)) \<notin> set evs" using n by auto
  with c t j r show ?thesis by (simp del: upt_Suc)
qed


theorem heartbeat_lifecycle_witness:
  "fst (search one_env test_opts (init_state Map.empty)) = Returned \<and>
   take 2 (trace (snd (search one_env test_opts (init_state Map.empty)))) =
     [Log DEFAULT (Running_query (lit ''q'')), CreateTask Heartbeat] \<and>
   created (snd (search one_env test_opts (init_state Map.empty))) =
     [Heartbeat, BehaviorWorker, SampleWorker] \<and>
   Cancel 0 \<notin> set (trace (snd (search one_env test_opts (init_state Map.empty)))) \<and>
   drop 19 (trace (snd (search one_env test_opts (init_state Map.empty)))) =
     [Join BehaviorQ, Join SampleQ, Cancel 1, Cancel 2]"
  using heartbeat_lifecycle [of "init_state Map.empty" one_env test_opts]
  by (simp add: one_env_def run_defs)

text \<open>
  C6 as stated fails on a search with one file result: the heartbeat task is created
  before the result is visited, and after both joins only the two workers (tasks 1 and 2)
  are cancelled, not the monitor (task 0). On a search whose first result raises an
  authorization error the heartbeat task is created all the same.
\<close>

theorem heartbeat_lifecycle_counterexample:
  "fst (search one_env test_opts (init_state Map.empty)) = Returned \<and>
   created (snd (search one_env test_opts (init_state Map.empty))) =
     [Heartbeat, BehaviorWorker, SampleWorker] \<and>
   trace (snd (search one_env test_opts (init_state Map.empty))) =
     [Log DEFAULT (Running_query (lit ''q'')), CreateTask Heartbeat,
      Put SampleQ (Obj \<lparr>otype = (lit ''file''), oid = (lit ''abc''), ourl = []\<rparr>),
      Put BehaviorQ (Obj \<lparr>otype = (lit ''file''), oid = (lit ''abc''), ourl = []\<rparr>),
      Exists (lit ''info/abc''), Log DEBUG (Saved_summary (lit ''info/abc'')),
      CreateTask BehaviorWorker, CreateTask SampleWorker,
      Get BehaviorQ (Obj \<lparr>otype = (lit ''file''), oid = (lit ''abc''), ourl = []\<rparr>),
      IsFile (lit ''reports/abc''),
      NetGetJson (lit ''https://virustotal.com/api/v3/files/abc/behaviours''),
      Log DEFAULT (No_valid_data (lit ''https://virustotal.com/api/v3/files/abc/behaviours'')),
      Log ERROR (No_behavior_report (lit ''abc'')), TaskDone BehaviorQ,
      Get SampleQ (Obj \<lparr>otype = (lit ''file''), oid = (lit ''abc''), ourl = []\<rparr>),
      IsFile (lit ''samples/abc''), NetDownload (lit ''abc''),
      Log DEBUG (Sample_downloaded (lit ''abc'')), TaskDone SampleQ,
      Join BehaviorQ, Join SampleQ, Cancel 1, Cancel 2] \<and>
   fatal (lit ''ForbiddenError'') \<and>
   trace (snd (search forbidden_env test_opts (init_state Map.empty))) =
     [Log DEFAULT (Running_query (lit ''q'')), CreateTask Heartbeat, Log ERROR Api_key_invalid]"
  by (simp add: one_env_def forbidden_env_def fatal_def run_defs)


end
